theory Spec2Isabelle
  imports Complex_Main "HOL-Library.Sublist" "HOL-Library.Multiset"
    "HOL-Library.Char_ord" "HOL-Library.List_Lexorder" "HOL-Library.Product_Lexorder"
begin


section \<open>Data model\<close>

text \<open>
  Both conversion scripts work on ObsPy streams: a stream is a Python list of traces, a
  trace is a header (\<open>tr.stats\<close>) and a sample array (\<open>tr.data\<close>). The header fields
  the scripts read or write are the four identity codes, the start time and the sampling
  rate; \<open>npts\<close> and \<open>endtime\<close> are derived by ObsPy from the data and are functions here.
  Times are seconds since the epoch and, like the sampling rate, exact rationals: the
  rounding of the underlying floating-point arithmetic is not part of the model. A sample
  is \<open>Some v\<close>, or \<open>None\<close> where ObsPy's masked array has the sample masked (no data).
\<close>

datatype py_error = IndexError | ValueError | MergeException | OSError | ZeroDivisionError

type_synonym sample = "int option"

record trace =
  network :: string
  station :: string
  location :: string
  channel :: string
  starttime :: rat
  sampling_rate :: rat
  data :: "sample list"

type_synonym stream = "trace list"

definition npts :: "trace \<Rightarrow> nat" where
  "npts tr = length (data tr)"

text \<open>ObsPy: \<open>delta = 1 / sampling_rate\<close>, and 0 for a sampling rate of 0.\<close>

definition delta :: "trace \<Rightarrow> rat" where
  "delta tr = (if sampling_rate tr = 0 then 0 else 1 / sampling_rate tr)"

text \<open>ObsPy: \<open>endtime = starttime + (npts - 1) * delta\<close>, and \<open>starttime\<close> for no samples.\<close>

definition endtime :: "trace \<Rightarrow> rat" where
  "endtime tr = (if npts tr = 0 then starttime tr
                 else starttime tr + (of_nat (npts tr) - 1) * delta tr)"

section \<open>Python string operations\<close>

text \<open>\<open>x in y\<close> on strings: \<open>x\<close> occurs in \<open>y\<close> as a contiguous substring.\<close>

fun py_in :: "string \<Rightarrow> string \<Rightarrow> bool" where
  "py_in x [] = (x = [])"
| "py_in x (c # cs) = (prefix x (c # cs) \<or> py_in x cs)"

text \<open>\<open>s[-1:]\<close>: the last character as a string, the empty string for the empty string.\<close>

definition last_slice :: "string \<Rightarrow> string" where
  "last_slice s = (if s = [] then [] else [last s])"

text \<open>\<open>s[i]\<close> for \<open>i \<ge> 0\<close>, and \<open>s[-1]\<close>: both raise IndexError out of range.\<close>

definition nth_char :: "string \<Rightarrow> nat \<Rightarrow> py_error + char" where
  "nth_char s i = (if i < length s then Inr (s ! i) else Inl IndexError)"

definition last_char :: "string \<Rightarrow> py_error + char" where
  "last_char s = (if s = [] then Inl IndexError else Inr (last s))"

text \<open>\<open>s.strip()\<close>, for the white space of the ASCII range.\<close>

definition py_isspace :: "char \<Rightarrow> bool" where
  "py_isspace c = (of_char c \<in> {9, 10, 11, 12, 13, 28, 29, 30, 31, 32 :: nat})"

definition py_strip :: "string \<Rightarrow> string" where
  "py_strip s = rev (dropWhile py_isspace (rev (dropWhile py_isspace s)))"

text \<open>\<open>s.upper()\<close>, for the letters of the ASCII range.\<close>

definition upper_char :: "char \<Rightarrow> char" where
  "upper_char c = (if 97 \<le> (of_char c :: nat) \<and> (of_char c :: nat) \<le> 122
                   then char_of (of_char c - (32 :: nat)) else c)"

definition upper :: "string \<Rightarrow> string" where
  "upper s = map upper_char s"

text \<open>
  \<open>fnmatch.fnmatchcase(name, pat)\<close> of the Python library, for the patterns that
  \<open>st.select\<close> gets from \<open>fix_seedid\<close>: at most three characters of a station code
  followed by \<open>*\<close>. A pattern is made of \<open>*\<close> (any string), \<open>?\<close> (any one character),
  bracket classes and literal characters. The library reads \<open>[\<close> as the start of a class
  when a \<open>]\<close> closes it, the first character after \<open>[\<close> or after \<open>[!\<close> not counting as
  the closing one; otherwise \<open>[\<close> is a literal character. In a pattern of at most three
  characters and a final \<open>*\<close> the only class is \<open>[x]\<close> with one character \<open>x\<close> other
  than \<open>!\<close>, which matches \<open>x\<close> itself (\<open>[!]\<close> is not closed). Classes of several
  characters, ranges and negated classes need a longer pattern and are not modelled.
\<close>

fun bracket_class :: "string \<Rightarrow> (char \<times> string) option" where
  "bracket_class (x # e # ps) =
     (if x \<noteq> CHR ''!'' \<and> e = CHR '']'' then Some (x, ps) else None)"
| "bracket_class ps = None"

function fnmatchcase :: "string \<Rightarrow> string \<Rightarrow> bool" where
  "fnmatchcase [] [] = True"
| "fnmatchcase (c # cs) [] = False"
| "fnmatchcase [] (p # ps) = (p = CHR ''*'' \<and> fnmatchcase [] ps)"
| "fnmatchcase (c # cs) (p # ps) =
     (if p = CHR ''*'' then fnmatchcase (c # cs) ps \<or> fnmatchcase cs (p # ps)
      else if p = CHR ''?'' then fnmatchcase cs ps
      else if p = CHR ''['' \<and> bracket_class ps \<noteq> None
           then c = fst (the (bracket_class ps)) \<and> fnmatchcase cs (snd (the (bracket_class ps)))
           else c = p \<and> fnmatchcase cs ps)"
  by pat_completeness auto

termination fnmatchcase
proof (relation "measure (\<lambda>(name, pat). length name + length pat)")
  show "wf (measure (\<lambda>(name, pat). length name + length pat))" by simp
next
  fix c :: char and cs p ps
  assume "\<not> (p = CHR ''['' \<and> bracket_class ps \<noteq> None)"
  show "((cs, ps), c # cs, p # ps) \<in> measure (\<lambda>(name, pat). length name + length pat)" by simp
next
  fix c :: char and cs p ps
  assume "p = CHR ''['' \<and> bracket_class ps \<noteq> None"
  then obtain x ps' where "bracket_class ps = Some (x, ps')" by auto
  moreover from this have "length ps' < length ps"
    by (cases ps rule: bracket_class.cases) (auto split: if_splits)
  ultimately show "((cs, snd (the (bracket_class ps))), c # cs, p # ps)
                     \<in> measure (\<lambda>(name, pat). length name + length pat)" by simp
qed simp_all

section \<open>Identity normalizer of 20_twominutemseed2suds.py\<close>

text \<open>
  The body of the loop of \<open>fix_seedid\<close> for one trace that is not an IRIG trace, in the
  three blocks of the source. \<open>stations\<close> is the snapshot of the station codes of the
  whole input stream, taken before the loop; \<open>root3\<close> and \<open>multi_for_root\<close> are computed
  once per trace, from the station code as read. The two places where the source indexes
  a string, \<open>station[-1]\<close> and \<open>channel[2]\<close>, raise IndexError when the string is too
  short.

  First block: a station code ending in Z, N or E, with several codes on its root, gives
  the channel \<open>EH?\<close> and the root as station; otherwise a channel that is not three
  characters ending in Z, N or E becomes \<open>EHZ\<close>.
\<close>

text \<open>
  The test of line 56 is \<open>len(channel) != 3 or channel[2] not in "ZNE"\<close>: the channel
  code is not three characters ending in Z, N or E. This is its negation.
\<close>

definition well_formed_channel :: "string \<Rightarrow> bool" where
  "well_formed_channel c = (length c = 3 \<and> py_in [c ! 2] ''ZNE'')"

definition zne_rule_20 :: "bool \<Rightarrow> string \<Rightarrow> trace \<Rightarrow> py_error + trace" where
  "zne_rule_20 multi_for_root root3 tr =
     (if py_in (last_slice (station tr)) ''ZNE'' \<and> multi_for_root
      then (case last_char (station tr) of
              Inl e \<Rightarrow> Inl e
            | Inr c \<Rightarrow> Inr (tr\<lparr>channel := ''EH'' @ [c], station := root3\<rparr>))
      else if \<not> well_formed_channel (channel tr)
           then Inr (tr\<lparr>channel := ''EHZ''\<rparr>)
           else Inr tr)"

text \<open>Second block: a station code of four characters ending in L or H.\<close>

definition gain_rule_20 :: "bool \<Rightarrow> string \<Rightarrow> trace \<Rightarrow> py_error + trace" where
  "gain_rule_20 multi_for_root root3 tr =
     (if length (station tr) = 4
      then (if last (station tr) = CHR ''L'' \<and> multi_for_root
            then (case nth_char (channel tr) 2 of
                    Inl e \<Rightarrow> Inl e
                  | Inr c \<Rightarrow> Inr (tr\<lparr>channel := ''EL'' @ [c], station := root3\<rparr>))
            else if last (station tr) = CHR ''H'' \<and> multi_for_root
                 then Inr (tr\<lparr>station := root3\<rparr>)
                 else Inr tr)
      else Inr tr)"

text \<open>Third block, line 69: \<open>tr.stats.location = (tr.stats.location or "").strip()\<close>.\<close>

definition strip_location :: "trace \<Rightarrow> trace" where
  "strip_location tr = tr\<lparr>location := py_strip (location tr)\<rparr>"

definition fix_trace_20 :: "string list \<Rightarrow> string \<Rightarrow> trace \<Rightarrow> py_error + trace" where
  "fix_trace_20 stations net tr0 =
     (let tr = tr0\<lparr>network := net\<rparr>;
          root3 = take 3 (station tr);
          multi_for_root = (length (filter (prefix root3) stations) > 1)
      in case zne_rule_20 multi_for_root root3 tr of
           Inl e \<Rightarrow> Inl e
         | Inr tr1 \<Rightarrow>
             (case gain_rule_20 multi_for_root root3 tr1 of
                Inl e \<Rightarrow> Inl e
              | Inr tr2 \<Rightarrow> Inr (strip_location tr2)))"

text \<open>The loop: IRIG traces are skipped (\<open>continue\<close>), the others are appended to \<open>out\<close>.\<close>

fun fix_loop_20 :: "string list \<Rightarrow> string \<Rightarrow> stream \<Rightarrow> stream \<Rightarrow> py_error + stream" where
  "fix_loop_20 stations net [] out = Inr out"
| "fix_loop_20 stations net (tr # rest) out =
     (if station tr = ''IRIG'' then fix_loop_20 stations net rest out
      else case fix_trace_20 stations net tr of
             Inl e \<Rightarrow> Inl e
           | Inr tr' \<Rightarrow> fix_loop_20 stations net rest (out @ [tr']))"

definition fix_seedid_20 :: "stream \<Rightarrow> string \<Rightarrow> py_error + stream" where
  "fix_seedid_20 st net = fix_loop_20 (map station st) net st []"

section \<open>Identity normalizer of 02_mseed2sds.py\<close>

text \<open>
  \<open>len(st.select(station=pat))\<close>: ObsPy keeps the traces of the stream for which
  \<open>fnmatch.fnmatch(tr.stats.station.upper(), pat.upper())\<close> holds.
\<close>

definition select_count :: "stream \<Rightarrow> string \<Rightarrow> nat" where
  "select_count st pat =
     length (filter (\<lambda>tr. fnmatchcase (upper (station tr)) (upper pat)) st)"

text \<open>
  This \<open>fix_seedid\<close> changes the traces in place and removes IRIG traces from the stream
  it iterates over. ObsPy's \<open>Stream.__iter__\<close> iterates over a copy of the list of traces,
  so every trace of the input is visited once, in order. While the loop is at a trace,
  the stream holds \<open>done\<close> (what is left of the traces visited so far, as changed), the
  trace itself and \<open>rest\<close> (the traces not visited yet, unchanged); \<open>st.select\<close> sees
  this live stream, with the trace as it is at that moment.
\<close>

definition multi_02 :: "stream \<Rightarrow> trace \<Rightarrow> stream \<Rightarrow> bool" where
  "multi_02 done tr rest =
     (select_count (done @ tr # rest) (take 3 (station tr) @ ''*'') > 1)"

text \<open>Lines 41 to 45: the Z/N/E rule, with \<open>EHZ\<close> for every other trace.\<close>

definition zne_rule_02 :: "stream \<Rightarrow> trace \<Rightarrow> stream \<Rightarrow> py_error + trace" where
  "zne_rule_02 done tr rest =
     (case last_char (station tr) of
        Inl e \<Rightarrow> Inl e
      | Inr c \<Rightarrow>
          if py_in [c] ''ZNE'' \<and> multi_02 done tr rest
          then Inr (tr\<lparr>channel := ''EH'' @ [c], station := take 3 (station tr)\<rparr>)
          else Inr (tr\<lparr>channel := ''EHZ''\<rparr>))"

text \<open>Lines 47 to 49 and lines 50 to 51: two \<open>if\<close> statements, one after the other.\<close>

definition low_gain_02 :: "stream \<Rightarrow> trace \<Rightarrow> stream \<Rightarrow> py_error + trace" where
  "low_gain_02 done tr rest =
     (case last_char (station tr) of
        Inl e \<Rightarrow> Inl e
      | Inr c \<Rightarrow>
          if c = CHR ''L'' \<and> multi_02 done tr rest
          then (case nth_char (channel tr) 2 of
                  Inl e \<Rightarrow> Inl e
                | Inr c2 \<Rightarrow> Inr (tr\<lparr>channel := ''EL'' @ [c2], station := take 3 (station tr)\<rparr>))
          else Inr tr)"

definition high_gain_02 :: "stream \<Rightarrow> trace \<Rightarrow> stream \<Rightarrow> py_error + trace" where
  "high_gain_02 done tr rest =
     (case last_char (station tr) of
        Inl e \<Rightarrow> Inl e
      | Inr c \<Rightarrow>
          if c = CHR ''H'' \<and> multi_02 done tr rest
          then Inr (tr\<lparr>station := take 3 (station tr)\<rparr>)
          else Inr tr)"

definition fix_trace_02 :: "string \<Rightarrow> stream \<Rightarrow> trace \<Rightarrow> stream \<Rightarrow> py_error + trace" where
  "fix_trace_02 net done tr0 rest =
     (case zne_rule_02 done (tr0\<lparr>network := net\<rparr>) rest of
        Inl e \<Rightarrow> Inl e
      | Inr tr1 \<Rightarrow>
          if length (station tr1) = 4
          then (case low_gain_02 done tr1 rest of
                  Inl e \<Rightarrow> Inl e
                | Inr tr2 \<Rightarrow> high_gain_02 done tr2 rest)
          else Inr tr1)"

text \<open>
  The loop. \<open>st.remove(tr)\<close> is \<open>list.remove\<close>: it deletes the first trace of the live
  stream that is equal to \<open>tr\<close> (ObsPy compares traces by value). When that is a trace of
  \<open>done\<close>, the IRIG trace itself stays in the stream, at the end of \<open>done\<close>.
\<close>

fun fix_loop_02 :: "string \<Rightarrow> stream \<Rightarrow> stream \<Rightarrow> py_error + stream" where
  "fix_loop_02 net done [] = Inr done"
| "fix_loop_02 net done (tr # rest) =
     (if station tr = ''IRIG''
      then fix_loop_02 net (if tr \<in> set done then remove1 tr done @ [tr] else done) rest
      else case fix_trace_02 net done tr rest of
             Inl e \<Rightarrow> Inl e
           | Inr tr' \<Rightarrow> fix_loop_02 net (done @ [tr']) rest)"

definition fix_seedid_02 :: "stream \<Rightarrow> string \<Rightarrow> py_error + stream" where
  "fix_seedid_02 st net = fix_loop_02 net [] st"

abbreviation not_irig :: "trace \<Rightarrow> bool" where
  "not_irig tr \<equiv> station tr \<noteq> ''IRIG''"

section \<open>Station codes of the SEED format\<close>

text \<open>
  A station code of the SEED format is made of upper-case letters and digits, and is not
  empty. On such codes \<open>upper\<close> changes nothing and the pattern of \<open>st.select\<close> holds no
  wildcard and no bracket but its final \<open>*\<close>. Hypotheses about the input are stated with this predicate.
\<close>

definition seed_char :: "char \<Rightarrow> bool" where
  "seed_char c = ((48 \<le> (of_char c :: nat) \<and> (of_char c :: nat) \<le> 57) \<or>
                  (65 \<le> (of_char c :: nat) \<and> (of_char c :: nat) \<le> 90))"

definition seed_code :: "string \<Rightarrow> bool" where
  "seed_code s = (s \<noteq> [] \<and> list_all seed_char s)"

section \<open>Where the two normalizers meet\<close>

text \<open>
  For the comparison of the two normalizers. While the loop of 02_mseed2sds.py is at a
  trace, its stream holds the traces before it that are not IRIG traces (the loop has
  removed the IRIG traces it met), the trace and all the traces after it; a trace that the
  loop has renamed keeps the first three characters of its station code, which is all that
  the count of \<open>st.select\<close> looks at. \<open>kept_with_live\<close> pairs every trace of the input that
  is not an IRIG trace with the station codes, as read, of that stream; \<open>kp\<close> holds the
  traces before \<open>tr\<close> that are not IRIG traces.
\<close>

fun kept_with_live :: "stream \<Rightarrow> stream \<Rightarrow> (trace \<times> string list) list" where
  "kept_with_live kp [] = []"
| "kept_with_live kp (tr # rest) =
     (if station tr = ''IRIG'' then kept_with_live kp rest
      else (tr, map station (kp @ tr # rest)) # kept_with_live (kp @ [tr]) rest)"

text \<open>
  The tests of 20_twominutemseed2suds.py on the snapshot \<open>S\<close> of the station codes:
  \<open>multi_for_root\<close> (line 48), the test of the Z/N/E rule (line 51) and the test of the
  low-gain rule (lines 60 and 61).
\<close>

definition multi_for_root :: "string list \<Rightarrow> trace \<Rightarrow> bool" where
  "multi_for_root S tr = (1 < length (filter (prefix (take 3 (station tr))) S))"

definition zne_applies :: "string list \<Rightarrow> trace \<Rightarrow> bool" where
  "zne_applies S tr = (py_in (last_slice (station tr)) ''ZNE'' \<and> multi_for_root S tr)"

definition low_gain_applies :: "string list \<Rightarrow> trace \<Rightarrow> bool" where
  "low_gain_applies S tr =
     (length (station tr) = 4 \<and> last (station tr) = CHR ''L'' \<and> multi_for_root S tr)"

text \<open>
  \<open>rule_letter\<close>: the station code ends in a letter that one of the renaming rules looks
  at, Z, N or E, or L or H at the end of four characters. \<open>same_siblings\<close>: for such a
  trace the test for several station codes on its root has the same result on the station
  codes \<open>L\<close> as on the station codes \<open>S\<close>.
\<close>

definition rule_letter :: "trace \<Rightarrow> bool" where
  "rule_letter tr =
     (py_in (last_slice (station tr)) ''ZNE'' \<or>
      length (station tr) = 4 \<and> (last (station tr) = CHR ''L'' \<or> last (station tr) = CHR ''H''))"

definition same_siblings :: "string list \<Rightarrow> string list \<Rightarrow> trace \<Rightarrow> bool" where
  "same_siblings S L tr = (rule_letter tr \<longrightarrow> multi_for_root L tr = multi_for_root S tr)"

text \<open>
  \<open>same_channel\<close> lists the cases in which the two normalizers give a trace the same
  channel code: the Z/N/E rule applies to it; or it comes with a channel code that is not
  three characters ending in Z, N or E; or the low-gain rule applies and its channel code
  ends in Z; or the low-gain rule does not apply and its channel code is EHZ.
\<close>

definition same_channel :: "string list \<Rightarrow> trace \<Rightarrow> bool" where
  "same_channel S tr =
     (zne_applies S tr \<or> \<not> well_formed_channel (channel tr) \<or>
      (if low_gain_applies S tr then channel tr ! 2 = CHR ''Z'' else channel tr = ''EHZ''))"

text \<open>
  For the proofs about the loop of 02_mseed2sds.py: \<open>tr'\<close> is what its body returns for
  \<open>tr\<close> in some state of the live stream in which every count of \<open>st.select\<close> for the root
  of \<open>tr\<close> is the count of the station codes \<open>S\<close> that start with that root.
\<close>

definition snapshot_step :: "string \<Rightarrow> string list \<Rightarrow> trace \<Rightarrow> trace \<Rightarrow> bool" where
  "snapshot_step net S tr tr' =
     (\<exists>done rest.
        (\<forall>t. station t = station tr \<or> station t = take 3 (station tr) \<longrightarrow>
           multi_02 done t rest = (1 < length (filter (prefix (take 3 (station tr))) S))) \<and>
        fix_trace_02 net done tr rest = Inr tr')"

section \<open>Numbers and times\<close>

text \<open>
  Python's \<open>round(x)\<close> for a float: the nearest integer, a tie going to the even one.
\<close>

definition py_round :: "rat \<Rightarrow> int" where
  "py_round x =
     (let f = \<lfloor>x\<rfloor>; r = x - of_int f
      in if r < 1 / 2 then f
         else if r > 1 / 2 then f + 1
         else if even f then f else f + 1)"

text \<open>
  ObsPy's \<open>round_away\<close> (used by \<open>trim\<close> and by the addition of traces): the nearest
  integer, a tie going away from zero.
\<close>

definition round_away :: "rat \<Rightarrow> int" where
  "round_away x = (if x \<ge> 0 then \<lfloor>x + 1 / 2\<rfloor> else - \<lfloor>- x + 1 / 2\<rfloor>)"

text \<open>
  \<open>UTCDateTime(t.year, t.month, t.day)\<close>: the UTC midnight at or before \<open>t\<close>. ObsPy's
  times are POSIX times, every day has 86400 seconds.
\<close>

definition day_start :: "rat \<Rightarrow> rat" where
  "day_start t = 86400 * of_int \<lfloor>t / 86400\<rfloor>"

text \<open>Python's \<open>xs[:k]\<close>: a negative \<open>k\<close> counts from the end.\<close>

definition slice_to :: "int \<Rightarrow> 'a list \<Rightarrow> 'a list" where
  "slice_to k xs = (if k \<ge> 0 then take (nat k) xs else take (length xs - nat (- k)) xs)"

section \<open>ObsPy's trim\<close>

text \<open>
  \<open>Trace.trim(starttime, endtime, pad=False)\<close> of the ObsPy library, which both scripts
  call with its default \<open>nearest_sample=True\<close>: it cuts at the samples nearest to the two
  times. \<open>_ltrim\<close> computes the index of the sample nearest to the new start time,
  \<open>delta = round_away((starttime - tr.starttime) * sampling_rate)\<close>; for \<open>delta > 0\<close> it
  moves the start time by \<open>delta\<close> samples and drops \<open>delta\<close> samples, otherwise it
  leaves the trace alone.
\<close>

definition ltrim :: "trace \<Rightarrow> rat \<Rightarrow> trace" where
  "ltrim tr t =
     (let d = round_away ((t - starttime tr) * sampling_rate tr)
      in if d \<le> 0 then tr
         else let tr1 = tr\<lparr>starttime := starttime tr + of_int d * delta tr\<rparr>
              in if t > endtime tr1 then tr1\<lparr>data := []\<rparr>
                 else tr1\<lparr>data := drop (nat d) (data tr1)\<rparr>)"

text \<open>
  \<open>_rtrim\<close> computes \<open>delta = round_away((endtime - tr.starttime) * sampling_rate) -
  npts + 1\<close>, the (negative) number of samples after the sample nearest to the new end
  time; for \<open>delta \<ge> 0\<close> it leaves the trace alone.
\<close>

definition rtrim :: "trace \<Rightarrow> rat \<Rightarrow> trace" where
  "rtrim tr t =
     (let d = round_away ((t - starttime tr) * sampling_rate tr) - int (npts tr) + 1
      in if d \<ge> 0 then tr
         else if t < starttime tr
              then tr\<lparr>starttime := endtime tr + of_int d * delta tr, data := []\<rparr>
              else let total = int (length (data tr)) - \<bar>d\<bar>
                   in tr\<lparr>data := slice_to (if t = starttime tr then 1 else total) (data tr)\<rparr>)"

definition trim :: "trace \<Rightarrow> rat \<Rightarrow> rat \<Rightarrow> py_error + trace" where
  "trim tr s e = (if s > e then Inl ValueError else Inr (rtrim (ltrim tr s) e))"

section \<open>Day splitter of 20_twominutemseed2suds.py\<close>

text \<open>
  The \<open>while True\<close> loop of \<open>split_trace_at_midnights\<close>, with the list \<open>parts\<close> and the
  working trace \<open>cur\<close> as its state. The loop can run forever; the result is \<open>None\<close>
  then.
\<close>

partial_function (option) split_loop :: "trace list \<Rightarrow> trace \<Rightarrow> (py_error + trace list) option" where
  "split_loop parts cur =
     (let st = starttime cur;
          et = endtime cur;
          day_end = day_start st + 86400
      in if et \<le> day_end then Some (Inr (parts @ [cur]))
         else case trim cur st day_end of
                Inl e \<Rightarrow> Some (Inl e)
              | Inr left \<Rightarrow>
                  (case trim cur day_end et of
                     Inl e \<Rightarrow> Some (Inl e)
                   | Inr cur' \<Rightarrow> split_loop (parts @ [left]) cur'))"

definition split_trace_at_midnights :: "trace \<Rightarrow> (py_error + trace list) option" where
  "split_trace_at_midnights tr = split_loop [] tr"


section \<open>ObsPy's merge\<close>

text \<open>Python's slices \<open>xs[a:]\<close> and \<open>xs[a:b]\<close>; \<open>py_index\<close> is the position an index stands for.\<close>

definition py_index :: "int \<Rightarrow> nat \<Rightarrow> nat" where
  "py_index i n = (if i < 0 then nat (int n + i) else min (nat i) n)"

definition slice_from :: "int \<Rightarrow> 'a list \<Rightarrow> 'a list" where
  "slice_from a xs = drop (py_index a (length xs)) xs"

definition py_slice :: "int \<Rightarrow> int \<Rightarrow> 'a list \<Rightarrow> 'a list" where
  "py_slice a b xs =
     take (py_index b (length xs) - py_index a (length xs)) (drop (py_index a (length xs)) xs)"

text \<open>
  \<open>Trace.__add__(trace, method, fill_value, interpolation_samples=0)\<close> of the ObsPy
  library, as \<open>Stream.merge\<close> calls it for \<open>method\<close> 0 and 1. \<open>lt\<close> is the trace that
  starts first, \<open>rt\<close> the other; \<open>d\<close> is the number of samples missing between the end of
  \<open>lt\<close> and the start of \<open>rt\<close> (negative: the number of samples of \<open>lt\<close> from the
  start of \<open>rt\<close> on). The result has the header of \<open>lt\<close>. A chunk of \<open>fill_value\<close>
  \<open>None\<close> is a chunk of masked samples. Four cases, as in the library:
  \<^item> overlap: where the two traces agree on the overlap, or for method 1, the overlap of
    \<open>lt\<close> is cut and the whole of \<open>rt\<close> follows; for method 0 the overlap becomes a
    chunk of \<open>fill_value\<close>;
  \<^item> \<open>rt\<close> contained in \<open>lt\<close>: \<open>lt\<close>, for method 0 with a chunk of \<open>fill_value\<close>
    where \<open>rt\<close> differs;
  \<^item> \<open>d = 0\<close>: the two sample arrays, one after the other;
  \<^item> gap: a chunk of \<open>d\<close> samples of \<open>fill_value\<close> between the two.
  The comparison of the overlap is on samples that are not masked, as the samples of a
  trace read from a file are. \<open>Stream.merge\<close> never passes a trace without samples.
\<close>

definition trace_add :: "nat \<Rightarrow> sample \<Rightarrow> trace \<Rightarrow> trace \<Rightarrow> trace" where
  "trace_add method fill_value self other =
     (let lt = (if starttime self \<le> starttime other then self else other);
          rt = (if starttime self \<le> starttime other then other else self);
          sr = sampling_rate self;
          d = round_away ((starttime rt - endtime lt) * sr) - 1;
          delta_endtime = endtime lt - endtime rt;
          ld = data lt;
          rd = data rt
      in lt\<lparr>data :=
           (if d < 0 \<and> delta_endtime < 0
            then (if slice_from d ld = slice_to (- d) rd then slice_to d ld @ rd
                  else if method = 0
                       then slice_to d ld @ replicate (nat (- d)) fill_value @ slice_from (- d) rd
                       else if rd = [] then ld else slice_to d ld @ rd)
            else if d < 0
                 then (let t1 = int (length ld) + d; t2 = t1 + int (length rd)
                       in if py_slice t1 t2 ld = rd then ld
                          else if method = 0
                               then slice_to t1 ld @ replicate (length rd) fill_value @
                                    slice_from t2 ld
                               else ld)
                 else if d = 0 then ld @ rd
                      else ld @ replicate (nat d) fill_value @ rd)\<rparr>)"

text \<open>
  \<open>Stream.merge\<close> and \<open>Stream._cleanup\<close> check first that the traces of one id have one
  sampling rate; the traces without samples are not looked at. The checks of the data type
  and of the calibration factor are about header fields that are not in the model.
\<close>

definition trace_id :: "trace \<Rightarrow> string \<times> string \<times> string \<times> string" where
  "trace_id tr = (network tr, station tr, location tr, channel tr)"

definition merge_checks :: "stream \<Rightarrow> bool" where
  "merge_checks st =
     list_all (\<lambda>a. list_all (\<lambda>b. data a = [] \<or> data b = [] \<or> trace_id a \<noteq> trace_id b \<or>
                                   sampling_rate a = sampling_rate b) st) st"

text \<open>
  \<open>Stream._cleanup(misalignment_threshold=1e-2)\<close>, the first step of every
  \<open>Stream.merge\<close>: it joins the traces of one id that fit together and leaves the others
  alone. Python's \<open>x % d\<close> on floats has the sign of \<open>d\<close> and raises ZeroDivisionError
  for \<open>d = 0\<close>.
\<close>

definition py_mod :: "rat \<Rightarrow> rat \<Rightarrow> rat" where
  "py_mod x d = x - d * of_int \<lfloor>x / d\<rfloor>"

definition misalignment_threshold :: rat where
  "misalignment_threshold = 1 / 100"

text \<open>
  The first block of the loop body: \<open>gap\<close> is the time from the sample that would follow
  the last one of \<open>cur\<close> to the start of \<open>tr\<close>. A trace that overlaps \<open>cur\<close>, follows
  it directly or follows it after a gap of at most a hundredth of a sample, and whose
  samples are at most a hundredth of a sample off the sampling points of \<open>cur\<close>, is moved
  onto them.
\<close>

definition align :: "trace \<Rightarrow> trace \<Rightarrow> trace" where
  "align cur tr =
     (let dl = delta cur;
          gap = starttime tr - (endtime cur + dl)
      in if 0 < misalignment_threshold \<and> gap \<le> misalignment_threshold * dl
         then (let misalignment = py_mod gap dl;
                   misalign_percentage = misalignment / dl
               in if misalignment \<noteq> 0 \<and>
                     (misalign_percentage \<le> misalignment_threshold \<or>
                      misalign_percentage \<ge> 1 - misalignment_threshold)
                  then tr\<lparr>starttime := starttime cur +
                             of_int (py_round ((starttime tr - starttime cur) / dl)) * dl\<rparr>
                  else tr)
         else tr)"

text \<open>
  The loop body for the working trace \<open>cur\<close> and the next trace \<open>tr\<close> of its id. The
  result is the traces that go to the stream and the new working trace. A trace that
  starts inside \<open>cur\<close>, on its sampling points, is added to it when the two have the same
  samples on their common time span (\<open>Trace.slice\<close> is \<open>trim\<close> on a copy), and so is a
  trace that follows \<open>cur\<close> directly; \<open>cur += tr\<close> is \<open>Trace.__add__\<close> with method 0 and
  no fill value. Every other trace becomes the working trace, and \<open>cur\<close> goes to the
  stream as it is. With a sampling rate of 0 the body divides by zero.
\<close>

definition cleanup_step :: "trace \<Rightarrow> trace \<Rightarrow> py_error + (trace list \<times> trace)" where
  "cleanup_step cur tr0 =
     (let dl = delta cur
      in if dl = 0 then Inl ZeroDivisionError
         else let tr = align cur tr0;
                  s = py_mod (starttime tr - starttime cur) dl / dl;
                  subsample_shift_percentage = min s (1 - s)
              in if starttime tr \<le> endtime cur \<and>
                    subsample_shift_percentage < misalignment_threshold
                 then (let t1 = starttime tr;
                           t2 = min (endtime cur) (endtime tr)
                       in case trim cur t1 t2 of
                            Inl e \<Rightarrow> Inl e
                          | Inr c \<Rightarrow>
                              (case trim tr t1 t2 of
                                 Inl e \<Rightarrow> Inl e
                               | Inr t \<Rightarrow>
                                   if data c = data t then Inr ([], trace_add 0 None cur tr)
                                   else Inr ([cur], tr)))
                 else if starttime tr = endtime cur + delta cur
                      then Inr ([], trace_add 0 None cur tr)
                      else Inr ([cur], tr))"

text \<open>
  The loop over the traces of one id, and the loop over the ids. An exception leaves the
  stream with the traces that were put back so far, which is the second component of an
  error here.
\<close>

fun cleanup_group :: "trace \<Rightarrow> trace list \<Rightarrow> (py_error \<times> stream) + stream" where
  "cleanup_group cur [] = Inr [cur]"
| "cleanup_group cur (tr # trs) =
     (case cleanup_step cur tr of
        Inl e \<Rightarrow> Inl (e, [])
      | Inr (out, cur') \<Rightarrow>
          (case cleanup_group cur' trs of
             Inl (e, kept) \<Rightarrow> Inl (e, out @ kept)
           | Inr res \<Rightarrow> Inr (out @ res)))"

fun cleanup_groups :: "trace list list \<Rightarrow> (py_error \<times> stream) + stream" where
  "cleanup_groups [] = Inr []"
| "cleanup_groups ([] # groups) = cleanup_groups groups"
| "cleanup_groups ((cur # trs) # groups) =
     (case cleanup_group cur trs of
        Inl (e, kept) \<Rightarrow> Inl (e, kept)
      | Inr res \<Rightarrow>
          (case cleanup_groups groups of
             Inl (e, kept) \<Rightarrow> Inl (e, res @ kept)
           | Inr more_res \<Rightarrow> Inr (res @ more_res)))"

text \<open>
  \<open>_cleanup\<close> as a whole: the traces without samples are dropped; when the check of the
  sampling rates fails, nothing more is done (a warning); otherwise the traces are sorted
  by id, start time and end time, and grouped by id in that order.
\<close>

definition split_by_id :: "stream \<Rightarrow> trace list list" where
  "split_by_id st =
     map (\<lambda>i. filter (\<lambda>tr. trace_id tr = i) st) (rev (remdups (rev (map trace_id st))))"

definition cleanup :: "stream \<Rightarrow> (py_error \<times> stream) + stream" where
  "cleanup st =
     (let nonempty = filter (\<lambda>tr. data tr \<noteq> []) st
      in if \<not> merge_checks nonempty then Inr nonempty
         else case cleanup_groups
                     (split_by_id (sort_key (\<lambda>tr. (trace_id tr, starttime tr, endtime tr)) nonempty)) of
                Inl err \<Rightarrow> Inl err
              | Inr res \<Rightarrow> Inr (filter (\<lambda>tr. data tr \<noteq> []) res))"

text \<open>
  \<open>Stream.merge(method, fill_value)\<close> for the methods 0 and 1. After \<open>_cleanup\<close> the
  check of the sampling rates raises where it fails. Then the traces are sorted by id,
  start time and end time, the traces of one id are added up from the left, and the
  results are put in the order the stream had after \<open>_cleanup\<close>, a trace that was added up
  from several coming first. An error comes with the stream as the exception leaves it.
\<close>

fun merge_group :: "nat \<Rightarrow> sample \<Rightarrow> trace \<Rightarrow> trace list \<Rightarrow> trace" where
  "merge_group method fill_value cur [] = cur"
| "merge_group method fill_value cur (tr # trs) =
     merge_group method fill_value (trace_add method fill_value cur tr) trs"

definition merge_id :: "nat \<Rightarrow> sample \<Rightarrow> (nat \<times> trace) list \<Rightarrow> (int \<times> trace) list" where
  "merge_id method fill_value grp =
     (case grp of
        [] \<Rightarrow> []
      | [(i, tr)] \<Rightarrow> [(int i, tr)]
      | (i, tr) # others \<Rightarrow> [(- 1, merge_group method fill_value tr (map snd others))])"

definition merge_traces :: "nat \<Rightarrow> sample \<Rightarrow> stream \<Rightarrow> stream" where
  "merge_traces method fill_value st =
     (let indexed = zip [0..<length st] st;
          sorted = sort_key (\<lambda>p. (trace_id (snd p), starttime (snd p), endtime (snd p)))
                     indexed;
          nonempty = filter (\<lambda>p. data (snd p) \<noteq> []) sorted;
          ids = rev (remdups (rev (map (\<lambda>p. trace_id (snd p)) nonempty)));
          merged = concat (map (\<lambda>i. merge_id method fill_value
                                        (filter (\<lambda>p. trace_id (snd p) = i) nonempty)) ids)
      in map snd (sort_key fst merged))"

definition stream_merge :: "nat \<Rightarrow> sample \<Rightarrow> stream \<Rightarrow> (py_error \<times> stream) + stream" where
  "stream_merge method fill_value st =
     (case cleanup st of
        Inl err \<Rightarrow> Inl err
      | Inr cleaned \<Rightarrow>
          if \<not> merge_checks cleaned then Inl (MergeException, cleaned)
          else Inr (merge_traces method fill_value cleaned))"

section \<open>Sample-rate rounding and the merges of the two scripts\<close>

text \<open>\<open>round_sampling_rates\<close> of 20_twominutemseed2suds.py.\<close>

definition round_sampling_rates :: "stream \<Rightarrow> stream" where
  "round_sampling_rates st =
     map (\<lambda>tr. let sr = sampling_rate tr
               in if \<bar>sr - of_int (py_round sr)\<bar> < 1 / 1000000
                  then tr\<lparr>sampling_rate := of_int (py_round sr)\<rparr>
                  else tr) st"

text \<open>
  Lines 163 to 168 of \<open>process\<close>: merge the bin with method 1 and no fill value; when
  that raises, round the sampling rates of the stream as the failed merge left it and
  merge again. An exception of the second merge is not caught.
\<close>

definition bucket_merge :: "stream \<Rightarrow> py_error + stream" where
  "bucket_merge st =
     (case stream_merge 1 None st of
        Inr merged \<Rightarrow> Inr merged
      | Inl (e, left) \<Rightarrow>
          (case stream_merge 1 None (round_sampling_rates left) of
             Inr merged \<Rightarrow> Inr merged
           | Inl (e', left') \<Rightarrow> Inl e'))"

text \<open>
  \<open>append_and_merge\<close> of 02_mseed2sds.py: merge with method 0 and fill value 0; when
  that raises, round every sampling rate to the nearest integer and merge again.
\<close>

definition append_and_merge :: "stream \<Rightarrow> stream \<Rightarrow> py_error + stream" where
  "append_and_merge dayst st =
     (case stream_merge 0 (Some 0) (dayst @ st) of
        Inr merged \<Rightarrow> Inr merged
      | Inl (e, left) \<Rightarrow>
          (case stream_merge 0 (Some 0)
                  (map (\<lambda>tr. tr\<lparr>sampling_rate := of_int (py_round (sampling_rate tr))\<rparr>) left) of
             Inr merged \<Rightarrow> Inr merged
           | Inl (e', left') \<Rightarrow> Inl e'))"

section \<open>Writing the bins\<close>

text \<open>
  The loop of lines 161 to 189 of \<open>process\<close> over the bins in the order of their keys
  (network, station, location, channel, year, day of the year). The file system and the
  MiniSEED writer are outside the program: \<open>mkdir_ok\<close> says whether the directory of a
  key can be made, \<open>write_ok\<close> whether writing the stream of a key succeeds. The log
  holds what the loop has done: the count \<open>wrote\<close>, the day files written and the keys
  of the failed writes (the \<open>[ERR]\<close> lines). An exception that the loop does not catch
  ends the run, with the log as it was.
\<close>

type_synonym bin_key = "string \<times> string \<times> string \<times> string \<times> int \<times> int"

record sds_env =
  mkdir_ok :: "bin_key \<Rightarrow> bool"
  write_ok :: "bin_key \<Rightarrow> stream \<Rightarrow> bool"

record run_log =
  wrote :: nat
  files :: "(bin_key \<times> stream) list"
  errors :: "bin_key list"

datatype run_result = Done run_log | Aborted py_error run_log

text \<open>Lines 171 to 175: the first trace of the merged stream gets the codes of the key.\<close>

definition relabel :: "bin_key \<Rightarrow> trace \<Rightarrow> trace" where
  "relabel key tr0 =
     (case key of (net, sta, loc, cha, y, j) \<Rightarrow>
        tr0\<lparr>network := net, station := sta, location := loc, channel := cha\<rparr>)"

fun write_bins :: "sds_env \<Rightarrow> (bin_key \<times> stream) list \<Rightarrow> run_log \<Rightarrow> run_result" where
  "write_bins env [] lg = Done lg"
| "write_bins env ((key, st) # rest) lg =
     (case bucket_merge st of
        Inl e \<Rightarrow> Aborted e lg
      | Inr [] \<Rightarrow> Aborted IndexError lg
      | Inr (tr0 # others) \<Rightarrow>
          if \<not> mkdir_ok env key then Aborted OSError lg
          else if write_ok env key (relabel key tr0 # others)
               then write_bins env rest
                      (lg\<lparr>wrote := wrote lg + 1,
                           files := files lg @ [(key, relabel key tr0 # others)]\<rparr>)
               else write_bins env rest (lg\<lparr>errors := errors lg @ [key]\<rparr>))"

definition process_bins :: "sds_env \<Rightarrow> (bin_key \<times> stream) list \<Rightarrow> run_result" where
  "process_bins env bins =
     write_bins env (sort_key fst bins) \<lparr>wrote = 0, files = [], errors = []\<rparr>"

text \<open>
  For the statements about the loop: a bin is ready when it merges to a stream that is not
  empty and its directory can be made; \<open>bin_stream\<close> is the stream the loop then hands
  to the writer; a bin is written when it is ready and the writer succeeds.
\<close>

definition bin_ready :: "sds_env \<Rightarrow> bin_key \<times> stream \<Rightarrow> bool" where
  "bin_ready env b =
     (case bucket_merge (snd b) of
        Inl e \<Rightarrow> False
      | Inr [] \<Rightarrow> False
      | Inr (tr0 # others) \<Rightarrow> mkdir_ok env (fst b))"

definition bin_stream :: "bin_key \<times> stream \<Rightarrow> stream" where
  "bin_stream b =
     (case bucket_merge (snd b) of
        Inl e \<Rightarrow> []
      | Inr [] \<Rightarrow> []
      | Inr (tr0 # others) \<Rightarrow> relabel (fst b) tr0 # others)"

definition bin_written :: "sds_env \<Rightarrow> bin_key \<times> stream \<Rightarrow> bool" where
  "bin_written env b = (bin_ready env b \<and> write_ok env (fst b) (bin_stream b))"

section \<open>Concrete inputs\<close>

text \<open>A batch with two IRIG traces around a seismic trace, and what both normalizers return for it.\<close>

definition irig_batch :: stream where
  "irig_batch =
     [\<lparr>network = ''OV'', station = ''IRIG'', location = '''', channel = ''TIM'',
       starttime = 0, sampling_rate = 100, data = [Some 1, Some 2]\<rparr>,
      \<lparr>network = ''OV'', station = ''BIS'', location = '''', channel = ''Z'',
       starttime = 0, sampling_rate = 100, data = [Some 3, Some 4]\<rparr>,
      \<lparr>network = ''OV'', station = ''IRIG'', location = '''', channel = ''TIM'',
       starttime = 5, sampling_rate = 100, data = [Some 5]\<rparr>]"

definition irig_batch_fixed :: stream where
  "irig_batch_fixed =
     [\<lparr>network = ''NR'', station = ''BIS'', location = '''', channel = ''EHZ'',
       starttime = 0, sampling_rate = 100, data = [Some 3, Some 4]\<rparr>]"

text \<open>
  A trace as the scripts read it from a two-minute file, by station and channel code,
  and the same trace with the network set to NR.
\<close>

definition raw_trace :: "string \<Rightarrow> string \<Rightarrow> trace" where
  "raw_trace s c = \<lparr>network = ''OV'', station = s, location = '''', channel = c,
                     starttime = 0, sampling_rate = 100, data = [Some 7, Some 8]\<rparr>"

definition fixed_trace :: "string \<Rightarrow> string \<Rightarrow> trace" where
  "fixed_trace s c = \<lparr>network = ''NR'', station = s, location = '''', channel = c,
                       starttime = 0, sampling_rate = 100, data = [Some 7, Some 8]\<rparr>"

definition pir_batch :: stream where
  "pir_batch = [raw_trace ''PIR1'' ''EHN'', raw_trace ''PIR2'' '''', raw_trace ''PIRZ'' '''',
                raw_trace ''PIRN'' '''', raw_trace ''PIRE'' '''']"

definition irig_first :: stream where
  "irig_first = [raw_trace ''IRIG'' ''TIM'', raw_trace ''IRIZ'' '''']"

definition iriz_first :: stream where
  "iriz_first = [raw_trace ''IRIZ'' '''', raw_trace ''IRIG'' ''TIM'']"

definition abc_batch :: stream where
  "abc_batch = [raw_trace ''ABC'' ''EHN'']"

definition lower_batch :: stream where
  "lower_batch = [raw_trace ''pirZ'' '''', raw_trace ''PIRN'' '''']"

text \<open>
  A batch in which IRIG comes after the station code IRIZ and before IRIN, with channel
  codes of three characters on some traces, and a batch of one trace with an empty
  station code.
\<close>

definition mixed_batch :: stream where
  "mixed_batch = [raw_trace ''IRIZ'' [], raw_trace ''IRIG'' ''TIM'', raw_trace ''IRIN'' [],
                  raw_trace ''OLLZ'' ''SHN'', raw_trace ''OLLN'' [], raw_trace ''REC1'' ''EHZ'',
                  raw_trace ''RECL'' ''SHZ'', raw_trace ''RECH'' ''Z'', raw_trace ''ABC'' ''EHN'']"

definition nameless_batch :: stream where
  "nameless_batch = [raw_trace [] []]"

text \<open>
  Traces of station BIS by start time, sampling rate and samples. \<open>crossing_trace\<close>
  has four samples at 1 Hz from 23:59:58.25 of the first day (86400 is the midnight that
  ends it): its sample nearest to midnight is 0.25 s after midnight. \<open>stuck_trace\<close>
  starts at 23:59:58.75: its sample nearest to midnight is 0.25 s before midnight.
\<close>

definition sample_trace :: "rat \<Rightarrow> rat \<Rightarrow> int list \<Rightarrow> trace" where
  "sample_trace t sr xs = \<lparr>network = ''NR'', station = ''BIS'', location = '''', channel = ''EHZ'',
                     starttime = t, sampling_rate = sr, data = map Some xs\<rparr>"

definition crossing_trace :: trace where
  "crossing_trace = sample_trace (86400 - 7 / 4) 1 [1, 2, 3, 4]"

definition stuck_trace :: trace where
  "stuck_trace = sample_trace (86400 - 5 / 4) 1 [1, 2, 3, 4]"

text \<open>
  Two traces at 1 Hz with three samples missing between them, and two traces of ten
  samples at 1 Hz of which the second starts 5 s after the first.
\<close>

definition gap_a :: trace where
  "gap_a = sample_trace 0 1 [1, 2]"

definition gap_b :: trace where
  "gap_b = sample_trace 5 1 [5, 6]"

definition overlap_a :: trace where
  "overlap_a = sample_trace 0 1 [1, 2, 3, 4, 5, 6, 7, 8, 9, 10]"

definition overlap_b :: trace where
  "overlap_b = sample_trace 5 1 [101, 102, 103, 104, 105, 106, 107, 108, 109, 110]"

text \<open>A trace that starts 5 s after \<open>overlap_a\<close> with the samples \<open>overlap_a\<close> has there.\<close>

definition overlap_c :: trace where
  "overlap_c = sample_trace 5 1 [6, 7, 8, 9, 10, 11, 12]"

text \<open>A trace with the sampling rate 99.9997 Hz, and one of the same id at 100 Hz.\<close>

definition jitter_trace :: trace where
  "jitter_trace = sample_trace 0 (999997 / 10000) [1, 2]"

definition steady_trace :: trace where
  "steady_trace = sample_trace 10 100 [3, 4]"

text \<open>
  Two bins of the first day of 1970, for the stations BIS and OLL, and two environments: one in which
  every directory can be made and every write succeeds, one in which the write of the
  day file of BIS fails.
\<close>

definition key_bis :: bin_key where
  "key_bis = (''NR'', ''BIS'', '''', ''EHZ'', 1970, 1)"

definition key_oll :: bin_key where
  "key_oll = (''NR'', ''OLL'', '''', ''EHZ'', 1970, 1)"

definition oll_trace :: trace where
  "oll_trace = (sample_trace 0 100 [7, 8, 9])\<lparr>station := ''OLL''\<rparr>"

definition env_ok :: sds_env where
  "env_ok = \<lparr>mkdir_ok = (\<lambda>key. True), write_ok = (\<lambda>key st. True)\<rparr>"

definition env_bis_fails :: sds_env where
  "env_bis_fails = \<lparr>mkdir_ok = (\<lambda>key. True), write_ok = (\<lambda>key st. key \<noteq> key_bis)\<rparr>"

text \<open>
  An environment in which the directory of the day file of OLL cannot be made, and a
  trace without samples.
\<close>

definition env_no_dir :: sds_env where
  "env_no_dir = \<lparr>mkdir_ok = (\<lambda>key. key \<noteq> key_oll), write_ok = (\<lambda>key st. True)\<rparr>"

definition empty_trace :: trace where
  "empty_trace = sample_trace 0 100 []"

text \<open>Four samples at 1 Hz from 23:59:58: the third sample is at midnight.\<close>

definition aligned_trace :: trace where
  "aligned_trace = sample_trace (86400 - 2) 1 [1, 2, 3, 4]"


text \<open>
  A trace of ten samples at 1 Hz that starts 4.6 s after \<open>overlap_a\<close>, between two of its
  sampling points; and three traces at 1 Hz of which the second lies on the last sample of
  the first, with another value, and the third follows the second directly.
\<close>

definition offgrid_b :: trace where
  "offgrid_b = sample_trace (46 / 10) 1 [101, 102, 103, 104, 105, 106, 107, 108, 109, 110]"

definition three_fragments :: stream where
  "three_fragments = [sample_trace 0 1 [1, 1], sample_trace 1 1 [9], sample_trace 2 1 [5, 6]]"

section \<open>Properties of the identity normalizers\<close>

subsection \<open>The normalizer of 20_twominutemseed2suds.py\<close>

lemma zne_rule_20_error: "zne_rule_20 m r tr = Inl e \<Longrightarrow> e = IndexError"
  by (auto simp: zne_rule_20_def last_char_def split: if_splits)

lemma gain_rule_20_error: "gain_rule_20 m r tr = Inl e \<Longrightarrow> e = IndexError"
  by (auto simp: gain_rule_20_def nth_char_def split: if_splits)

lemma fix_trace_20_error: "fix_trace_20 S net tr = Inl e \<Longrightarrow> e = IndexError"
  by (auto simp: fix_trace_20_def Let_def split: sum.splits
      dest: zne_rule_20_error gain_rule_20_error)

lemma zne_rule_20_keeps:
  "zne_rule_20 m r tr = Inr tr' \<Longrightarrow>
     network tr' = network tr \<and> data tr' = data tr \<and> starttime tr' = starttime tr \<and>
     sampling_rate tr' = sampling_rate tr \<and> location tr' = location tr \<and>
     (station tr' = station tr \<or> station tr' = r)"
  by (auto simp: zne_rule_20_def last_char_def split: if_splits)

lemma gain_rule_20_keeps:
  "gain_rule_20 m r tr = Inr tr' \<Longrightarrow>
     network tr' = network tr \<and> data tr' = data tr \<and> starttime tr' = starttime tr \<and>
     sampling_rate tr' = sampling_rate tr \<and> location tr' = location tr \<and>
     (station tr' = station tr \<or> station tr' = r)"
  by (auto simp: gain_rule_20_def nth_char_def split: if_splits)

lemma fix_trace_20_keeps:
  "fix_trace_20 S net tr = Inr tr' \<Longrightarrow>
     network tr' = net \<and> data tr' = data tr \<and> starttime tr' = starttime tr \<and>
     sampling_rate tr' = sampling_rate tr \<and>
     (station tr' = station tr \<or> station tr' = take 3 (station tr))"
  by (fastforce simp: fix_trace_20_def Let_def strip_location_def split: sum.splits
      dest!: zne_rule_20_keeps gain_rule_20_keeps)

lemma zne_rule_20_channel:
  "zne_rule_20 m r tr = Inr tr' \<Longrightarrow> length (station tr') = 4 \<Longrightarrow> length r \<le> 3 \<Longrightarrow>
     length (channel tr') = 3"
  by (auto simp: zne_rule_20_def last_char_def well_formed_channel_def split: if_splits)

lemma zne_rule_20_total:
  "station tr \<noteq> [] \<Longrightarrow> \<exists>tr'. zne_rule_20 m r tr = Inr tr'"
  by (auto simp: zne_rule_20_def last_char_def)

lemma gain_rule_20_total:
  "length (station tr) = 4 \<longrightarrow> length (channel tr) = 3 \<Longrightarrow> \<exists>tr'. gain_rule_20 m r tr = Inr tr'"
  by (auto simp: gain_rule_20_def nth_char_def)

lemma fix_trace_20_total:
  assumes "station tr \<noteq> []"
  shows "\<exists>tr'. fix_trace_20 S net tr = Inr tr'"
proof -
  let ?r = "take 3 (station tr)"
  let ?m = "length (filter (prefix ?r) S) > 1"
  obtain tr1 where 1: "zne_rule_20 ?m ?r (tr\<lparr>network := net\<rparr>) = Inr tr1"
    using zne_rule_20_total [of "tr\<lparr>network := net\<rparr>"] assms by auto
  have "length (station tr1) = 4 \<longrightarrow> length (channel tr1) = 3"
    using zne_rule_20_channel [OF 1] by simp
  then obtain tr2 where 2: "gain_rule_20 ?m ?r tr1 = Inr tr2"
    using gain_rule_20_total by blast
  show ?thesis using 1 2 by (simp add: fix_trace_20_def Let_def)
qed

lemma take3_not_irig: "take 3 s \<noteq> ''IRIG''"
proof
  assume "take 3 s = ''IRIG''"
  then have "length (take 3 s) = length ''IRIG''" by simp
  then show False by simp
qed

lemma fix_loop_20_Inr:
  "fix_loop_20 S net st out = Inr res \<longleftrightarrow>
     (\<exists>ys. list_all2 (\<lambda>tr tr'. fix_trace_20 S net tr = Inr tr') (filter not_irig st) ys \<and>
           res = out @ ys)"
proof (induction st arbitrary: out)
  case Nil
  then show ?case by auto
next
  case (Cons tr st)
  show ?case
  proof (cases "station tr = ''IRIG''")
    case True
    then show ?thesis using Cons.IH by simp
  next
    case False
    show ?thesis
    proof (cases "fix_trace_20 S net tr")
      case (Inl e)
      then show ?thesis using False by (auto simp: list_all2_Cons1)
    next
      case (Inr tr')
      then show ?thesis using False Cons.IH [of "out @ [tr']"]
        by (auto simp: list_all2_Cons1)
    qed
  qed
qed

lemma fix_loop_20_Inl:
  "fix_loop_20 S net st out = Inl e \<Longrightarrow> e = IndexError"
  by (induction st arbitrary: out) (auto split: if_splits sum.splits dest: fix_trace_20_error)

lemma fix_seedid_20_Inr:
  "fix_seedid_20 st net = Inr out \<longleftrightarrow>
     list_all2 (\<lambda>tr tr'. fix_trace_20 (map station st) net tr = Inr tr') (filter not_irig st) out"
  by (simp add: fix_seedid_20_def fix_loop_20_Inr)

lemma fix_seedid_20_total:
  assumes "\<forall>tr\<in>set st. not_irig tr \<longrightarrow> station tr \<noteq> []"
  shows "\<exists>out. fix_seedid_20 st net = Inr out"
proof -
  let ?S = "map station st"
  let ?f = "\<lambda>tr. projr (fix_trace_20 ?S net tr)"
  have "fix_trace_20 ?S net tr = Inr (?f tr)" if "tr \<in> set (filter not_irig st)" for tr
    using fix_trace_20_total [of tr ?S net] that assms by auto
  then have "list_all2 (\<lambda>tr tr'. fix_trace_20 ?S net tr = Inr tr')
               (filter not_irig st) (map ?f (filter not_irig st))"
    by (simp add: list_all2_map2 list_all2_same)
  then show ?thesis using fix_seedid_20_Inr by blast
qed

lemma fix_seedid_20_no_irig:
  assumes "fix_seedid_20 st net = Inr out"
  shows "(\<forall>tr\<in>set out. not_irig tr) \<and>
         map data out = map data (filter not_irig st) \<and>
         map starttime out = map starttime (filter not_irig st)"
proof -
  let ?S = "map station st"
  have rel: "list_all2 (\<lambda>tr tr'. fix_trace_20 ?S net tr = Inr tr') (filter not_irig st) out"
    using assms by (simp add: fix_seedid_20_Inr)
  have len: "length out = length (filter not_irig st)"
    using rel by (simp add: list_all2_lengthD)
  have pt: "fix_trace_20 ?S net (filter not_irig st ! i) = Inr (out ! i)" if "i < length out" for i
    using list_all2_nthD [OF rel, of i] that len by simp
  have ni: "not_irig (filter not_irig st ! i)" if "i < length out" for i
    using that len nth_mem [of i "filter not_irig st"] by auto
  have 1: "\<forall>tr\<in>set out. not_irig tr"
  proof
    fix tr assume "tr \<in> set out"
    then obtain i where i: "i < length out" "tr = out ! i" by (auto simp: in_set_conv_nth)
    from fix_trace_20_keeps [OF pt [OF i(1)]] ni [OF i(1)] take3_not_irig i(2)
    show "not_irig tr" by auto
  qed
  have 2: "map data out = map data (filter not_irig st)"
    using len fix_trace_20_keeps [OF pt] by (auto intro!: nth_equalityI)
  have 3: "map starttime out = map starttime (filter not_irig st)"
    using len fix_trace_20_keeps [OF pt] by (auto intro!: nth_equalityI)
  show ?thesis using 1 2 3 by blast
qed

lemma count_filter_mset:
  assumes "mset xs = mset ys"
  shows "length (filter P (map f xs)) = length (filter P (map f ys))"
proof -
  have "mset (filter P (map f xs)) = mset (filter P (map f ys))"
    using assms by (metis mset_filter mset_map)
  then show ?thesis by (metis size_mset)
qed

lemma fix_trace_20_perm:
  assumes "mset st' = mset st"
  shows "fix_trace_20 (map station st') net tr = fix_trace_20 (map station st) net tr"
proof -
  have "length (filter (prefix r) (map station st')) = length (filter (prefix r) (map station st))"
    for r by (rule count_filter_mset [OF assms])
  then show ?thesis by (simp only: fix_trace_20_def)
qed

lemma not_isl_Inr: "\<not> isl x \<Longrightarrow> x = Inr (projr x)"
  by (cases x) auto

lemma fix_seedid_20_cases:
  "fix_seedid_20 st net =
     (if \<forall>tr\<in>set st. not_irig tr \<longrightarrow> \<not> isl (fix_trace_20 (map station st) net tr)
      then Inr (map (\<lambda>tr. projr (fix_trace_20 (map station st) net tr)) (filter not_irig st))
      else Inl IndexError)"
proof (cases "fix_seedid_20 st net")
  case (Inl e)
  then have e: "e = IndexError" by (auto simp: fix_seedid_20_def dest: fix_loop_20_Inl)
  have "\<not> (\<forall>tr\<in>set st. not_irig tr \<longrightarrow> \<not> isl (fix_trace_20 (map station st) net tr))"
  proof
    assume a: "\<forall>tr\<in>set st. not_irig tr \<longrightarrow> \<not> isl (fix_trace_20 (map station st) net tr)"
    let ?f = "\<lambda>tr. projr (fix_trace_20 (map station st) net tr)"
    have "list_all2 (\<lambda>tr tr'. fix_trace_20 (map station st) net tr = Inr tr')
               (filter not_irig st) (map ?f (filter not_irig st))"
      using a by (auto simp: list_all2_map2 list_all2_same dest: not_isl_Inr)
    then have "\<exists>out. fix_seedid_20 st net = Inr out" using fix_seedid_20_Inr by blast
    then show False using Inl by simp
  qed
  then show ?thesis using Inl e by simp
next
  case (Inr out)
  then have rel: "list_all2 (\<lambda>tr tr'. fix_trace_20 (map station st) net tr = Inr tr')
                    (filter not_irig st) out"
    by (simp add: fix_seedid_20_Inr)
  then have len: "length out = length (filter not_irig st)" by (simp add: list_all2_lengthD)
  have a: "\<forall>tr\<in>set st. not_irig tr \<longrightarrow> \<not> isl (fix_trace_20 (map station st) net tr)"
  proof (intro ballI impI)
    fix tr assume "tr \<in> set st" "not_irig tr"
    then have "tr \<in> set (filter not_irig st)" by simp
    then obtain i where "i < length (filter not_irig st)" "filter not_irig st ! i = tr"
      by (metis in_set_conv_nth)
    then show "\<not> isl (fix_trace_20 (map station st) net tr)"
      using list_all2_nthD [OF rel, of i] by auto
  qed
  have "out = map (\<lambda>tr. projr (fix_trace_20 (map station st) net tr)) (filter not_irig st)"
    using len list_all2_nthD [OF rel] by (auto intro!: nth_equalityI)
  then show ?thesis using Inr a by simp
qed

subsection \<open>The normalizer of 02_mseed2sds.py\<close>

lemma zne_rule_02_keeps:
  "zne_rule_02 done tr rest = Inr tr' \<Longrightarrow>
     network tr' = network tr \<and> data tr' = data tr \<and> starttime tr' = starttime tr \<and>
     sampling_rate tr' = sampling_rate tr \<and> location tr' = location tr \<and>
     (station tr' = station tr \<or> station tr' = take 3 (station tr)) \<and>
     (length (station tr') = 4 \<longrightarrow> channel tr' = ''EHZ'')"
  by (auto simp: zne_rule_02_def last_char_def split: if_splits)

lemma low_gain_02_keeps:
  "low_gain_02 done tr rest = Inr tr' \<Longrightarrow>
     network tr' = network tr \<and> data tr' = data tr \<and> starttime tr' = starttime tr \<and>
     sampling_rate tr' = sampling_rate tr \<and> location tr' = location tr \<and>
     (station tr' = station tr \<or> station tr' = take 3 (station tr))"
  by (auto simp: low_gain_02_def last_char_def nth_char_def split: if_splits)

lemma high_gain_02_keeps:
  "high_gain_02 done tr rest = Inr tr' \<Longrightarrow>
     network tr' = network tr \<and> data tr' = data tr \<and> starttime tr' = starttime tr \<and>
     sampling_rate tr' = sampling_rate tr \<and> location tr' = location tr \<and>
     channel tr' = channel tr \<and>
     (station tr' = station tr \<or> station tr' = take 3 (station tr))"
  by (auto simp: high_gain_02_def last_char_def split: if_splits)

lemma fix_trace_02_keeps:
  assumes "fix_trace_02 net done tr rest = Inr tr'"
  shows "network tr' = net \<and> data tr' = data tr \<and> starttime tr' = starttime tr \<and>
     sampling_rate tr' = sampling_rate tr \<and> location tr' = location tr \<and>
     (station tr' = station tr \<or> station tr' = take 3 (station tr))"
proof -
  obtain tr1 where 1: "zne_rule_02 done (tr\<lparr>network := net\<rparr>) rest = Inr tr1"
    using assms by (auto simp: fix_trace_02_def split: sum.splits)
  note k1 = zne_rule_02_keeps [OF 1]
  show ?thesis
  proof (cases "length (station tr1) = 4")
    case False
    then have "tr' = tr1" using assms 1 by (simp add: fix_trace_02_def)
    then show ?thesis using k1 by auto
  next
    case True
    then obtain tr2 where 2: "low_gain_02 done tr1 rest = Inr tr2"
      and 3: "high_gain_02 done tr2 rest = Inr tr'"
      using assms 1 by (auto simp: fix_trace_02_def split: sum.splits)
    note k2 = low_gain_02_keeps [OF 2] and k3 = high_gain_02_keeps [OF 3]
    have "station tr1 = station tr" using True k1 by auto
    then show ?thesis using k1 k2 k3 by auto
  qed
qed

lemma zne_rule_02_total:
  "station tr \<noteq> [] \<Longrightarrow> \<exists>tr'. zne_rule_02 done tr rest = Inr tr'"
  by (auto simp: zne_rule_02_def last_char_def)

lemma low_gain_02_total:
  "station tr \<noteq> [] \<Longrightarrow> length (channel tr) = 3 \<Longrightarrow> \<exists>tr'. low_gain_02 done tr rest = Inr tr'"
  by (auto simp: low_gain_02_def last_char_def nth_char_def)

lemma high_gain_02_total:
  "station tr \<noteq> [] \<Longrightarrow> \<exists>tr'. high_gain_02 done tr rest = Inr tr'"
  by (auto simp: high_gain_02_def last_char_def)

lemma fix_trace_02_total:
  assumes "station tr \<noteq> []"
  shows "\<exists>tr'. fix_trace_02 net done tr rest = Inr tr'"
proof -
  obtain tr1 where 1: "zne_rule_02 done (tr\<lparr>network := net\<rparr>) rest = Inr tr1"
    using zne_rule_02_total [of "tr\<lparr>network := net\<rparr>"] assms by auto
  note k1 = zne_rule_02_keeps [OF 1]
  show ?thesis
  proof (cases "length (station tr1) = 4")
    case False
    then show ?thesis using 1 by (simp add: fix_trace_02_def)
  next
    case True
    then have "station tr1 \<noteq> []" "length (channel tr1) = 3" using k1 by auto
    then obtain tr2 where 2: "low_gain_02 done tr1 rest = Inr tr2"
      using low_gain_02_total by blast
    have "station tr2 \<noteq> []" using low_gain_02_keeps [OF 2] True by auto
    then obtain tr3 where 3: "high_gain_02 done tr2 rest = Inr tr3"
      using high_gain_02_total by blast
    show ?thesis using 1 2 3 True by (simp add: fix_trace_02_def)
  qed
qed

lemma fix_trace_02_not_irig:
  "fix_trace_02 net done tr rest = Inr tr' \<Longrightarrow> not_irig tr \<Longrightarrow> not_irig tr'"
  using fix_trace_02_keeps [of net "done" tr rest tr'] take3_not_irig [of "station tr"] by auto

lemma fix_loop_02_Inr:
  assumes "fix_loop_02 net done st = Inr out" and "\<forall>tr\<in>set done. not_irig tr"
  shows "(\<forall>tr\<in>set out. not_irig tr) \<and>
         map data out = map data done @ map data (filter not_irig st) \<and>
         map starttime out = map starttime done @ map starttime (filter not_irig st)"
  using assms
proof (induction st arbitrary: "done")
  case Nil
  then show ?case by simp
next
  case (Cons tr st)
  show ?case
  proof (cases "station tr = ''IRIG''")
    case True
    then have "tr \<notin> set done" using Cons.prems(2) by auto
    then have "fix_loop_02 net done st = Inr out" using Cons.prems(1) True by simp
    from Cons.IH [OF this Cons.prems(2)] True show ?thesis by simp
  next
    case False
    then obtain tr' where t: "fix_trace_02 net done tr st = Inr tr'"
      and l: "fix_loop_02 net (done @ [tr']) st = Inr out"
      using Cons.prems(1) by (auto split: sum.splits)
    have "\<forall>x\<in>set (done @ [tr']). not_irig x"
      using Cons.prems(2) fix_trace_02_not_irig [OF t False] by auto
    from Cons.IH [OF l this] fix_trace_02_keeps [OF t] False show ?thesis by simp
  qed
qed

lemma fix_loop_02_total:
  assumes "\<forall>tr\<in>set st. not_irig tr \<longrightarrow> station tr \<noteq> []"
  shows "\<exists>out. fix_loop_02 net done st = Inr out"
  using assms
proof (induction st arbitrary: "done")
  case Nil
  then show ?case by simp
next
  case (Cons tr st)
  show ?case
  proof (cases "station tr = ''IRIG''")
    case True
    then show ?thesis using Cons by simp
  next
    case False
    then obtain tr' where "fix_trace_02 net done tr st = Inr tr'"
      using fix_trace_02_total [of tr net "done" st] Cons.prems by auto
    then show ?thesis using False Cons.IH [of "done @ [tr']"] Cons.prems by simp
  qed
qed

subsection \<open>Where the two normalizers agree\<close>

lemma upper_char_seed: "seed_char c \<Longrightarrow> upper_char c = c"
  by (auto simp: upper_char_def seed_char_def)

lemma seed_char_not_wild:
  "seed_char c \<Longrightarrow> c \<noteq> CHR ''*'' \<and> c \<noteq> CHR ''?'' \<and> c \<noteq> CHR ''[''"
  by (auto simp: seed_char_def)

lemma upper_seed: "list_all seed_char s \<Longrightarrow> upper s = s"
  unfolding upper_def by (rule map_idI) (simp add: list_all_iff upper_char_seed)

lemma fnmatch_star_any: "fnmatchcase s ''*''"
  by (induction s) auto

lemma fnmatch_prefix:
  "CHR ''*'' \<notin> set r \<Longrightarrow> CHR ''?'' \<notin> set r \<Longrightarrow> CHR ''['' \<notin> set r \<Longrightarrow>
     fnmatchcase s (r @ ''*'') = prefix r s"
proof (induction r arbitrary: s)
  case Nil
  then show ?case by (simp add: fnmatch_star_any)
next
  case (Cons a r)
  then show ?case by (cases s) auto
qed

lemma select_count_seed:
  assumes "\<forall>t\<in>set live. list_all seed_char (station t)" and "list_all seed_char r"
  shows "select_count live (r @ ''*'') = length (filter (\<lambda>t. prefix r (station t)) live)"
proof -
  have r: "upper (r @ ''*'') = r @ ''*''"
    using upper_seed [OF assms(2)] by (simp add: upper_def upper_char_def)
  have w: "CHR ''*'' \<notin> set r" "CHR ''?'' \<notin> set r" "CHR ''['' \<notin> set r"
    using assms(2) seed_char_not_wild by (auto simp: list_all_iff)
  have "filter (\<lambda>t. fnmatchcase (upper (station t)) (upper (r @ ''*''))) live
        = filter (\<lambda>t. prefix r (station t)) live"
    using assms(1) by (intro filter_cong) (auto simp: r upper_seed fnmatch_prefix [OF w])
  then show ?thesis by (simp add: select_count_def)
qed

lemma prefix_take_le: "length r \<le> n \<Longrightarrow> prefix r (take n s) = prefix r s"
proof
  assume "prefix r (take n s)"
  then show "prefix r s" using take_is_prefix prefix_order.trans by blast
next
  assume "length r \<le> n" "prefix r s"
  then obtain t where "s = r @ t" by (auto simp: prefix_def)
  then show "prefix r (take n s)" using \<open>length r \<le> n\<close> by simp
qed

lemma count_by_root:
  assumes "length r \<le> 3" and "map (take 3 \<circ> station) xs = map (take 3 \<circ> station) ys"
  shows "length (filter (\<lambda>t. prefix r (station t)) xs) = length (filter (\<lambda>t. prefix r (station t)) ys)"
proof -
  have key: "length (filter (\<lambda>t. prefix r (station t)) zs) =
        length (filter (prefix r) (map (take 3 \<circ> station) zs))" for zs
    using assms(1) by (simp add: length_filter_map comp_def prefix_take_le)
  have "length (filter (\<lambda>t. prefix r (station t)) xs) =
        length (filter (prefix r) (map (take 3 \<circ> station) xs))" by (rule key)
  also have "\<dots> = length (filter (prefix r) (map (take 3 \<circ> station) ys))"
    by (simp only: assms(2))
  also have "\<dots> = length (filter (\<lambda>t. prefix r (station t)) ys)" by (rule key [symmetric])
  finally show ?thesis .
qed

lemma live_count:
  assumes inv: "map (take 3 \<circ> station) done = map (take 3 \<circ> station) kp"
    and len: "length r \<le> 3"
    and same: "take 3 (station t') = take 3 (station tr)"
  shows "length (filter (\<lambda>t. prefix r (station t)) (done @ t' # rest)) =
         length (filter (prefix r) (map station (kp @ tr # rest)))"
proof -
  let ?P = "\<lambda>t. prefix r (station t)"
  have 1: "length (filter ?P done) = length (filter ?P kp)"
    using count_by_root [OF len inv] by simp
  have 2: "?P t' = ?P tr"
    using prefix_take_le [OF len, of "station t'"] prefix_take_le [OF len, of "station tr"] same
    by simp
  show ?thesis using 1 2 by (simp add: length_filter_map comp_def)
qed

lemma multi_02_live:
  assumes inv: "map (take 3 \<circ> station) done = map (take 3 \<circ> station) kp"
    and sd: "\<forall>t\<in>set (done @ rest). list_all seed_char (station t)"
    and st: "list_all seed_char (station tr)"
    and same: "station t' = station tr \<or> station t' = take 3 (station tr)"
  shows "multi_02 done t' rest =
           (1 < length (filter (prefix (take 3 (station tr))) (map station (kp @ tr # rest))))"
proof -
  have t3: "take 3 (station t') = take 3 (station tr)" using same by auto
  have st': "list_all seed_char (station t')"
    using same st set_take_subset [of 3 "station tr"] by (auto simp: list_all_iff)
  have r: "list_all seed_char (take 3 (station tr))"
    using st set_take_subset [of 3 "station tr"] by (auto simp: list_all_iff)
  have "select_count (done @ t' # rest) (take 3 (station t') @ ''*'') =
        length (filter (\<lambda>t. prefix (take 3 (station tr)) (station t)) (done @ t' # rest))"
    unfolding t3 using sd st' by (intro select_count_seed [OF _ r]) auto
  also have "\<dots> = length (filter (prefix (take 3 (station tr))) (map station (kp @ tr # rest)))"
    by (rule live_count [OF inv _ t3]) simp
  finally show ?thesis by (simp add: multi_02_def)
qed

lemma count_modulo_irig:
  assumes "filter (\<lambda>x. x \<noteq> ''IRIG'') L = filter (\<lambda>x. x \<noteq> ''IRIG'') S"
    and "\<not> prefix r ''IRIG''"
  shows "length (filter (prefix r) L) = length (filter (prefix r) S)"
proof -
  have "filter (prefix r) X = filter (prefix r) (filter (\<lambda>x. x \<noteq> ''IRIG'') X)" for X
    using assms(2) by (auto simp: filter_filter intro: filter_cong)
  from this [of L] this [of S] assms(1) show ?thesis by simp
qed


lemma zne_rules_agree:
  assumes "multi_02 done tr rest = M" and "station tr \<noteq> []"
    and "\<not> well_formed_channel (channel tr)"
  shows "zne_rule_02 done tr rest = zne_rule_20 M (take 3 (station tr)) tr"
  using assms
  by (auto simp: zne_rule_02_def zne_rule_20_def last_char_def last_slice_def
      well_formed_channel_def)

lemma gain_rules_agree:
  assumes len: "length (station tr) = 4"
    and m1: "multi_02 done tr rest = M"
    and m2: "\<And>c. multi_02 done (tr\<lparr>channel := c, station := take 3 (station tr)\<rparr>) rest = M"
  shows "(case low_gain_02 done tr rest of
            Inl e \<Rightarrow> Inl e
          | Inr tr2 \<Rightarrow> high_gain_02 done tr2 rest) = gain_rule_20 M (take 3 (station tr)) tr"
proof -
  have ne: "station tr \<noteq> []" "take 3 (station tr) \<noteq> []" using len by auto
  show ?thesis
  proof (cases "last (station tr) = CHR ''L'' \<and> M")
    case True
    show ?thesis
    proof (cases "nth_char (channel tr) 2")
      case (Inl e)
      then show ?thesis using True len ne m1
        by (simp add: low_gain_02_def gain_rule_20_def last_char_def)
    next
      case (Inr c2)
      let ?tr2 = "tr\<lparr>channel := ''EL'' @ [c2], station := take 3 (station tr)\<rparr>"
      have low: "low_gain_02 done tr rest = Inr ?tr2"
        using True Inr ne m1 by (simp add: low_gain_02_def last_char_def)
      have high: "high_gain_02 done ?tr2 rest = Inr ?tr2"
        using ne by (simp add: high_gain_02_def last_char_def)
      have "gain_rule_20 M (take 3 (station tr)) tr = Inr ?tr2"
        using True Inr len by (simp add: gain_rule_20_def)
      then show ?thesis using low high by simp
    qed
  next
    case False
    then have low: "low_gain_02 done tr rest = Inr tr"
      using ne m1 by (auto simp: low_gain_02_def last_char_def)
    show ?thesis using False len ne m1
      by (auto simp: low high_gain_02_def gain_rule_20_def last_char_def)
  qed
qed

lemma fix_traces_agree:
  assumes m: "\<And>t. station t = station tr \<or> station t = take 3 (station tr) \<Longrightarrow>
                multi_02 done t rest = M"
    and M: "M = (1 < length (filter (prefix (take 3 (station tr))) S))"
    and ne: "station tr \<noteq> []" and nwf: "\<not> well_formed_channel (channel tr)"
  shows "fix_trace_20 S net tr = map_sum id strip_location (fix_trace_02 net done tr rest)"
proof -
  let ?tr = "tr\<lparr>network := net\<rparr>"
  let ?r = "take 3 (station tr)"
  have z: "zne_rule_02 done ?tr rest = zne_rule_20 M ?r ?tr"
    using zne_rules_agree [of "done" ?tr rest M] m [of ?tr] ne nwf by simp
  show ?thesis
  proof (cases "zne_rule_20 M ?r ?tr")
    case (Inl e)
    then show ?thesis using z M by (simp add: fix_trace_20_def fix_trace_02_def)
  next
    case (Inr tr1)
    note k = zne_rule_20_keeps [OF Inr]
    show ?thesis
    proof (cases "length (station tr1) = 4")
      case False
      then have "gain_rule_20 M ?r tr1 = Inr tr1" by (simp add: gain_rule_20_def)
      then show ?thesis using z Inr M False
        by (simp add: fix_trace_20_def fix_trace_02_def)
    next
      case True
      then have s1: "station tr1 = station tr" using k by auto
      have g: "(case low_gain_02 done tr1 rest of
                  Inl e \<Rightarrow> Inl e
                | Inr tr2 \<Rightarrow> high_gain_02 done tr2 rest) = gain_rule_20 M (take 3 (station tr1)) tr1"
        by (rule gain_rules_agree [OF True]) (simp_all add: m s1)
      show ?thesis using z Inr M True g s1
        by (cases "gain_rule_20 M ?r tr1")
          (auto simp: fix_trace_20_def fix_trace_02_def split: sum.splits)
    qed
  qed
qed

lemma kept_with_live_entries:
  "list_all2 (\<lambda>p t. fst p = t \<and>
                filter (\<lambda>x. x \<noteq> ''IRIG'') (snd p) =
                filter (\<lambda>x. x \<noteq> ''IRIG'') (map station (kp @ st)))
     (kept_with_live kp st) (filter not_irig st)"
proof (induction st arbitrary: kp)
  case Nil
  then show ?case by simp
next
  case (Cons tr st)
  show ?case
  proof (cases "station tr = ''IRIG''")
    case True
    then show ?thesis using Cons.IH [of kp] by simp
  next
    case False
    then show ?thesis using Cons.IH [of "kp @ [tr]"] by simp
  qed
qed

lemma snapshot_step_cong:
  assumes "(1 < length (filter (prefix (take 3 (station tr))) L)) =
           (1 < length (filter (prefix (take 3 (station tr))) S))"
  shows "snapshot_step net L tr tr' = snapshot_step net S tr tr'"
  using assms by (simp add: snapshot_step_def)

lemma fix_loop_02_live:
  assumes inv: "map (take 3 \<circ> station) done = map (take 3 \<circ> station) kp"
    and dn: "\<forall>t\<in>set done. not_irig t \<and> list_all seed_char (station t)"
    and sd: "\<forall>t\<in>set st. seed_code (station t)"
  shows "\<exists>ys. fix_loop_02 net done st = Inr (done @ ys) \<and>
              list_all2 (\<lambda>p tr'. snapshot_step net (snd p) (fst p) tr') (kept_with_live kp st) ys"
  using assms
proof (induction st arbitrary: "done" kp)
  case Nil
  then show ?case by simp
next
  case (Cons tr st)
  have sd': "\<forall>t\<in>set st. seed_code (station t)" using Cons.prems(3) by simp
  show ?case
  proof (cases "station tr = ''IRIG''")
    case True
    then have nd: "tr \<notin> set done" using Cons.prems(2) by auto
    from Cons.IH [OF Cons.prems(1,2) sd'] obtain ys where
      "fix_loop_02 net done st = Inr (done @ ys)"
      "list_all2 (\<lambda>p tr'. snapshot_step net (snd p) (fst p) tr') (kept_with_live kp st) ys"
      by blast
    then show ?thesis using True nd by simp
  next
    case False
    have st: "seed_code (station tr)" using Cons.prems(3) by simp
    then have ne: "station tr \<noteq> []" and ch: "list_all seed_char (station tr)"
      by (simp_all add: seed_code_def)
    have live: "\<forall>t\<in>set (done @ st). list_all seed_char (station t)"
      using Cons.prems(2) sd' by (auto simp: seed_code_def)
    obtain tr' where t: "fix_trace_02 net done tr st = Inr tr'"
      using fix_trace_02_total [OF ne] by blast
    have step: "snapshot_step net (map station (kp @ tr # st)) tr tr'"
      unfolding snapshot_step_def
      using multi_02_live [OF Cons.prems(1) live ch] t by blast
    note k = fix_trace_02_keeps [OF t]
    have t3: "take 3 (station tr') = take 3 (station tr)" using k by auto
    have inv': "map (take 3 \<circ> station) (done @ [tr']) = map (take 3 \<circ> station) (kp @ [tr])"
      using Cons.prems(1) t3 by (simp add: comp_def)
    have "list_all seed_char (station tr')"
      using k ch set_take_subset [of 3 "station tr"] by (auto simp: list_all_iff)
    then have dn': "\<forall>t\<in>set (done @ [tr']). not_irig t \<and> list_all seed_char (station t)"
      using Cons.prems(2) fix_trace_02_not_irig [OF t False] by auto
    from Cons.IH [OF inv' dn' sd'] obtain ys where
      "fix_loop_02 net (done @ [tr']) st = Inr ((done @ [tr']) @ ys)"
      "list_all2 (\<lambda>p tr'. snapshot_step net (snd p) (fst p) tr') (kept_with_live (kp @ [tr]) st) ys"
      by blast
    then have "fix_loop_02 net done (tr # st) = Inr (done @ tr' # ys) \<and>
       list_all2 (\<lambda>p tr'. snapshot_step net (snd p) (fst p) tr')
         (kept_with_live kp (tr # st)) (tr' # ys)"
      using False t step by simp
    then show ?thesis by blast
  qed
qed

lemma fix_seedid_02_live:
  assumes "\<forall>t\<in>set st. seed_code (station t)"
  shows "\<exists>out. fix_seedid_02 st net = Inr out \<and>
               list_all2 (\<lambda>p tr'. snapshot_step net (snd p) (fst p) tr') (kept_with_live [] st) out"
  using fix_loop_02_live [of "[]" "[]" st net] assms by (simp add: fix_seedid_02_def)

lemma fix_seedid_02_snapshot:
  assumes seed: "\<forall>t\<in>set st. seed_code (station t)"
    and sep: "\<forall>t\<in>set st. not_irig t \<longrightarrow> \<not> prefix (take 3 (station t)) ''IRIG''"
  shows "\<exists>out. fix_seedid_02 st net = Inr out \<and>
               list_all2 (snapshot_step net (map station st)) (filter not_irig st) out"
proof -
  let ?kept = "filter not_irig st" and ?kl = "kept_with_live [] st" and ?S = "map station st"
  obtain out where o: "fix_seedid_02 st net = Inr out"
    and r: "list_all2 (\<lambda>p tr'. snapshot_step net (snd p) (fst p) tr') ?kl out"
    using fix_seedid_02_live [OF seed] by blast
  have e: "list_all2 (\<lambda>p t. fst p = t \<and>
                filter (\<lambda>x. x \<noteq> ''IRIG'') (snd p) = filter (\<lambda>x. x \<noteq> ''IRIG'') ?S) ?kl ?kept"
    using kept_with_live_entries [of "[]" st] by simp
  have l1: "length ?kl = length out" using r by (rule list_all2_lengthD)
  have l2: "length ?kl = length ?kept" using e by (rule list_all2_lengthD)
  have "list_all2 (snapshot_step net ?S) ?kept out"
    unfolding list_all2_conv_all_nth
  proof (intro conjI allI impI)
    show "length ?kept = length out" using l1 l2 by simp
  next
    fix i assume i: "i < length ?kept"
    then have i': "i < length ?kl" using l2 by simp
    from list_all2_nthD [OF e i'] have f: "fst (?kl ! i) = ?kept ! i"
      and g: "filter (\<lambda>x. x \<noteq> ''IRIG'') (snd (?kl ! i)) = filter (\<lambda>x. x \<noteq> ''IRIG'') ?S"
      by simp_all
    have "?kept ! i \<in> set ?kept" using i by (rule nth_mem)
    then have "\<not> prefix (take 3 (station (?kept ! i))) ''IRIG''" using sep by auto
    from count_modulo_irig [OF g this]
      snapshot_step_cong [of "?kept ! i" "snd (?kl ! i)" ?S net "out ! i"]
      list_all2_nthD [OF r i'] f
    show "snapshot_step net ?S (?kept ! i) (out ! i)" by simp
  qed
  then show ?thesis using o by blast
qed

lemma snapshot_step_agrees:
  assumes "snapshot_step net S tr tr'" and "station tr \<noteq> []"
    and "\<not> well_formed_channel (channel tr)"
  shows "fix_trace_20 S net tr = Inr (strip_location tr')"
proof -
  from assms(1) obtain d r where
    m: "\<And>t. station t = station tr \<or> station t = take 3 (station tr) \<Longrightarrow>
          multi_02 d t r = (1 < length (filter (prefix (take 3 (station tr))) S))"
    and t: "fix_trace_02 net d tr r = Inr tr'"
    unfolding snapshot_step_def by blast
  from fix_traces_agree [of tr d r _ S net, OF m refl assms(2,3)] t
  show ?thesis by simp
qed

subsection \<open>The channel codes of the two normalizers\<close>

lemma multi_02_channel: "multi_02 done (tr\<lparr>channel := x\<rparr>) rest = multi_02 done tr rest"
  by (simp add: multi_02_def select_count_def)

lemma zne_rule_02_channel:
  "zne_rule_02 done (tr\<lparr>channel := x\<rparr>) rest = zne_rule_02 done tr rest"
  by (cases "last_char (station tr)") (simp_all add: zne_rule_02_def multi_02_channel)

lemma fix_trace_02_channel:
  "fix_trace_02 net done (tr\<lparr>channel := x\<rparr>) rest = fix_trace_02 net done tr rest"
proof -
  have "(tr\<lparr>channel := x\<rparr>)\<lparr>network := net\<rparr> = (tr\<lparr>network := net\<rparr>)\<lparr>channel := x\<rparr>" by simp
  then show ?thesis by (simp only: fix_trace_02_def zne_rule_02_channel)
qed

lemma snapshot_step_channel:
  "snapshot_step net S tr tr' \<Longrightarrow> snapshot_step net S (tr\<lparr>channel := x\<rparr>) tr'"
  by (simp add: snapshot_step_def fix_trace_02_channel)

lemma fix_trace_20_fields:
  assumes ne: "station tr \<noteq> []" and a: "fix_trace_20 S net tr = Inr a"
  shows "network a = net"
    and "station a =
           (if zne_applies S tr \<or>
               length (station tr) = 4 \<and> multi_for_root S tr \<and>
               (last (station tr) = CHR ''L'' \<or> last (station tr) = CHR ''H'')
            then take 3 (station tr) else station tr)"
    and "channel a =
           (if zne_applies S tr then ''EH'' @ [last (station tr)]
            else if low_gain_applies S tr
                 then ''EL'' @ [(if well_formed_channel (channel tr) then channel tr
                                 else ''EHZ'') ! 2]
                 else if well_formed_channel (channel tr) then channel tr else ''EHZ'')"
proof -
  have l: "min (length (station tr)) 3 \<noteq> 4" by simp
  have "network a = net \<and>
        station a =
           (if zne_applies S tr \<or>
               length (station tr) = 4 \<and> multi_for_root S tr \<and>
               (last (station tr) = CHR ''L'' \<or> last (station tr) = CHR ''H'')
            then take 3 (station tr) else station tr) \<and>
        channel a =
           (if zne_applies S tr then ''EH'' @ [last (station tr)]
            else if low_gain_applies S tr
                 then ''EL'' @ [(if well_formed_channel (channel tr) then channel tr
                                 else ''EHZ'') ! 2]
                 else if well_formed_channel (channel tr) then channel tr else ''EHZ'')"
  proof (cases "py_in (last_slice (station tr)) ''ZNE'' \<and> multi_for_root S tr")
    case True
    then have z: "zne_applies S tr" by (simp add: zne_applies_def)
    have "fix_trace_20 S net tr =
            Inr (strip_location (tr\<lparr>network := net, channel := ''EH'' @ [last (station tr)],
                                     station := take 3 (station tr)\<rparr>))"
      using True ne l
      by (simp add: fix_trace_20_def zne_rule_20_def gain_rule_20_def last_char_def
          multi_for_root_def Let_def del: py_in.simps)
    then show ?thesis using a z by (auto simp: strip_location_def)
  next
    case False
    then have z: "\<not> zne_applies S tr" by (simp add: zne_applies_def)
    define c where "c = (if well_formed_channel (channel tr) then channel tr else ''EHZ'')"
    have lc: "length c = 3" by (simp add: c_def well_formed_channel_def)
    have z1: "zne_rule_20 (multi_for_root S tr) (take 3 (station tr)) (tr\<lparr>network := net\<rparr>) =
                Inr (tr\<lparr>network := net, channel := c\<rparr>)"
      using False by (auto simp: zne_rule_20_def c_def simp del: py_in.simps)
    have g: "gain_rule_20 (multi_for_root S tr) (take 3 (station tr))
               (tr\<lparr>network := net, channel := c\<rparr>) =
             Inr (if low_gain_applies S tr
                  then tr\<lparr>network := net, channel := ''EL'' @ [c ! 2], station := take 3 (station tr)\<rparr>
                  else if length (station tr) = 4 \<and> last (station tr) = CHR ''H'' \<and>
                          multi_for_root S tr
                       then tr\<lparr>network := net, channel := c, station := take 3 (station tr)\<rparr>
                       else tr\<lparr>network := net, channel := c\<rparr>)"
      using lc by (simp add: gain_rule_20_def nth_char_def low_gain_applies_def)
    have "fix_trace_20 S net tr =
            Inr (strip_location
                   (if low_gain_applies S tr
                    then tr\<lparr>network := net, channel := ''EL'' @ [c ! 2], station := take 3 (station tr)\<rparr>
                    else if length (station tr) = 4 \<and> last (station tr) = CHR ''H'' \<and>
                            multi_for_root S tr
                         then tr\<lparr>network := net, channel := c, station := take 3 (station tr)\<rparr>
                         else tr\<lparr>network := net, channel := c\<rparr>))"
      unfolding fix_trace_20_def Let_def
      using z1 g by (simp add: multi_for_root_def)
    then show ?thesis using a z
      by (auto simp: strip_location_def c_def low_gain_applies_def)
  qed
  then show "network a = net"
    and "station a =
           (if zne_applies S tr \<or>
               length (station tr) = 4 \<and> multi_for_root S tr \<and>
               (last (station tr) = CHR ''L'' \<or> last (station tr) = CHR ''H'')
            then take 3 (station tr) else station tr)"
    and "channel a =
           (if zne_applies S tr then ''EH'' @ [last (station tr)]
            else if low_gain_applies S tr
                 then ''EL'' @ [(if well_formed_channel (channel tr) then channel tr
                                 else ''EHZ'') ! 2]
                 else if well_formed_channel (channel tr) then channel tr else ''EHZ'')"
    by simp_all
qed

lemma short_rule_letter:
  assumes "py_in (last_slice s) ''ZNE''" and "s \<noteq> []" and "prefix (take 3 s) ''IRIG''"
  shows "3 < length s"
proof (rule ccontr)
  assume "\<not> 3 < length s"
  then have "take 3 s = s" by simp
  then have "prefix s ''IRIG''" using assms(3) by simp
  then obtain n where "s = take n ''IRIG''" by (metis prefix_def append_eq_conv_conj)
  moreover have "n = 0 \<or> n = 1 \<or> n = 2 \<or> n = 3 \<or> 4 \<le> n" by arith
  ultimately have "s = [] \<or> s = ''I'' \<or> s = ''IR'' \<or> s = ''IRI'' \<or> s = ''IRIG''"
    by (auto simp: numeral_2_eq_2 numeral_3_eq_3)
  then show False using assms(1,2) \<open>\<not> 3 < length s\<close> by (auto simp: last_slice_def)
qed

lemma same_triple_iff:
  assumes ne: "station tr \<noteq> []"
    and E: "filter (\<lambda>x. x \<noteq> ''IRIG'') L = filter (\<lambda>x. x \<noteq> ''IRIG'') S"
    and a: "fix_trace_20 S net tr = Inr a" and b: "fix_trace_20 L net (tr\<lparr>channel := []\<rparr>) = Inr b"
  shows "network a = network b \<and>
         (station a = station b \<and> channel a = channel b) =
           (same_siblings S L tr \<and> same_channel S tr)"
proof -
  let ?s = "station tr"
  define zl where "zl = py_in (last_slice ?s) ''ZNE''"
  define gl where "gl = (length ?s = 4 \<and> (last ?s = CHR ''L'' \<or> last ?s = CHR ''H''))"
  define ll where "ll = (length ?s = 4 \<and> last ?s = CHR ''L'')"
  have nwf: "\<not> well_formed_channel []" by (simp add: well_formed_channel_def)
  have ne': "station (tr\<lparr>channel := []\<rparr>) \<noteq> []" using ne by simp
  have m: "multi_for_root L (tr\<lparr>channel := []\<rparr>) = multi_for_root L tr"
    "zne_applies L (tr\<lparr>channel := []\<rparr>) = zne_applies L tr"
    "low_gain_applies L (tr\<lparr>channel := []\<rparr>) = low_gain_applies L tr"
    by (simp_all add: multi_for_root_def zne_applies_def low_gain_applies_def)
  have zX: "zne_applies X tr = (zl \<and> multi_for_root X tr)" for X
    by (simp only: zne_applies_def zl_def)
  have lX: "low_gain_applies X tr = (ll \<and> multi_for_root X tr)" for X
    by (simp only: low_gain_applies_def ll_def conj_assoc)
  have llgl: "ll \<longrightarrow> gl" by (simp add: ll_def gl_def)
  note fa = fix_trace_20_fields [OF ne a]
  note fb = fix_trace_20_fields [OF ne' b]
  have net: "network a = network b" unfolding fa(1) fb(1) by simp
  have "station a = (if zne_applies S tr \<or> gl \<and> multi_for_root S tr then take 3 ?s else ?s)"
    unfolding fa(2) gl_def by (rule if_cong) auto
  then have sa: "station a = (if (zl \<or> gl) \<and> multi_for_root S tr then take 3 ?s else ?s)"
    unfolding zX by (simp add: conj_disj_distribR)
  have "station b = (if zne_applies L tr \<or> gl \<and> multi_for_root L tr then take 3 ?s else ?s)"
    unfolding fb(2) m gl_def by (simp cong: if_cong)
  then have sb: "station b = (if (zl \<or> gl) \<and> multi_for_root L tr then take 3 ?s else ?s)"
    unfolding zX by (simp add: conj_disj_distribR)
  have cb: "channel b =
           (if zne_applies L tr then ''EH'' @ [last ?s]
            else if low_gain_applies L tr then ''ELZ'' else ''EHZ'')"
    unfolding fb(3) m by (simp add: nwf)
  have rl: "rule_letter tr = (zl \<or> gl)" by (simp only: rule_letter_def zl_def gl_def)
  show ?thesis
  proof (cases "rule_letter tr \<and> multi_for_root L tr \<noteq> multi_for_root S tr")
    case True
    then have d: "multi_for_root L tr \<noteq> multi_for_root S tr" and l: "zl \<or> gl"
      using rl by simp_all
    have p: "prefix (take 3 ?s) ''IRIG''"
    proof (rule ccontr)
      assume "\<not> prefix (take 3 ?s) ''IRIG''"
      from count_modulo_irig [OF E this]
      have "multi_for_root L tr = multi_for_root S tr" by (simp add: multi_for_root_def)
      then show False using d by simp
    qed
    have "3 < length ?s"
    proof (cases zl)
      case True
      then show ?thesis using short_rule_letter [OF _ ne p] by (simp only: zl_def)
    next
      case False
      then have gl using l by simp
      then show ?thesis by (simp add: gl_def)
    qed
    then have "length (take 3 ?s) \<noteq> length ?s" by simp
    then have t: "take 3 ?s \<noteq> ?s" by metis
    have "station a \<noteq> station b"
    proof (cases "multi_for_root S tr")
      case True
      then have "\<not> multi_for_root L tr" using d by simp
      then have "station a = take 3 ?s" "station b = ?s" using sa sb True l by simp_all
      with t show ?thesis by (simp only: simp_thms)
    next
      case False
      then have "multi_for_root L tr" using d by simp
      then have "station a = ?s" "station b = take 3 ?s" using sa sb False l by simp_all
      with t [symmetric] show ?thesis by (simp only: simp_thms)
    qed
    moreover have "\<not> same_siblings S L tr" using True by (simp add: same_siblings_def)
    ultimately show ?thesis using net by simp
  next
    case False
    then have ss: "same_siblings S L tr" by (auto simp: same_siblings_def)
    have eqm: "((zl \<or> gl) \<and> multi_for_root L tr) = ((zl \<or> gl) \<and> multi_for_root S tr)"
      using False rl by auto
    have st: "station a = station b" unfolding sa sb using eqm by simp
    have z: "zne_applies L tr = zne_applies S tr"
      unfolding zX using eqm by auto
    have lg: "low_gain_applies L tr = low_gain_applies S tr"
      unfolding lX using eqm llgl by auto
    have "(channel a = channel b) = same_channel S tr"
    proof (cases "zne_applies S tr")
      case True
      then show ?thesis unfolding fa(3) cb z lg same_channel_def by simp
    next
      case zf: False
      show ?thesis
      proof (cases "well_formed_channel (channel tr)")
        case False
        then show ?thesis unfolding fa(3) cb z lg same_channel_def using zf by simp
      next
        case True
        then show ?thesis unfolding fa(3) cb z lg same_channel_def using zf by simp
      qed
    qed
    then show ?thesis using st ss net by simp
  qed
qed

lemma snapshot_step_compare:
  assumes s: "snapshot_step net L tr tr'" and ne: "station tr \<noteq> []"
    and E: "filter (\<lambda>x. x \<noteq> ''IRIG'') L = filter (\<lambda>x. x \<noteq> ''IRIG'') S"
    and a: "fix_trace_20 S net tr = Inr a"
  shows "network a = network tr' \<and>
         (station a = station tr' \<and> channel a = channel tr') =
           (same_siblings S L tr \<and> same_channel S tr)"
proof -
  have "fix_trace_20 L net (tr\<lparr>channel := []\<rparr>) = Inr (strip_location tr')"
    using snapshot_step_agrees [OF snapshot_step_channel [OF s, of "[]"]] ne
    by (simp add: well_formed_channel_def)
  from same_triple_iff [OF ne E a this] show ?thesis by (simp add: strip_location_def)
qed

lemma fix_loop_02_network:
  assumes "fix_loop_02 net done st = Inr out" and "\<forall>tr\<in>set done. not_irig tr \<and> network tr = net"
  shows "\<forall>tr\<in>set out. network tr = net"
  using assms
proof (induction st arbitrary: "done")
  case Nil
  then show ?case by simp
next
  case (Cons tr st)
  show ?case
  proof (cases "station tr = ''IRIG''")
    case True
    then have "tr \<notin> set done" using Cons.prems(2) by auto
    then have "fix_loop_02 net done st = Inr out" using Cons.prems(1) True by simp
    from Cons.IH [OF this Cons.prems(2)] show ?thesis .
  next
    case False
    then obtain tr' where t: "fix_trace_02 net done tr st = Inr tr'"
      and l: "fix_loop_02 net (done @ [tr']) st = Inr out"
      using Cons.prems(1) by (auto split: sum.splits)
    have "\<forall>x\<in>set (done @ [tr']). not_irig x \<and> network x = net"
      using Cons.prems(2) fix_trace_02_not_irig [OF t False] fix_trace_02_keeps [OF t] by auto
    from Cons.IH [OF l this] show ?thesis .
  qed
qed

lemma fix_seedid_20_network:
  assumes "fix_seedid_20 st net = Inr out"
  shows "\<forall>tr\<in>set out. network tr = net"
proof
  fix tr assume "tr \<in> set out"
  then obtain i where i: "i < length out" "tr = out ! i" by (auto simp: in_set_conv_nth)
  have rel: "list_all2 (\<lambda>tr tr'. fix_trace_20 (map station st) net tr = Inr tr')
               (filter not_irig st) out"
    using assms by (simp add: fix_seedid_20_Inr)
  have "i < length (filter not_irig st)" using i(1) list_all2_lengthD [OF rel] by simp
  from fix_trace_20_keeps [OF list_all2_nthD [OF rel this]] i(2) show "network tr = net" by simp
qed

lemma same_network:
  assumes "\<forall>tr\<in>set xs. network tr = net" and "\<forall>tr\<in>set ys. network tr = net"
    and "length xs = length ys"
  shows "map network xs = map network ys"
  using assms by (auto intro!: nth_equalityI)


subsection \<open>The sibling set of the PIR station\<close>

lemma pir_zne_20:
  assumes "1 < length (filter (prefix ''PIR'') S)" and "station tr = ''PIR'' @ [c]"
    and "c = CHR ''Z'' \<or> c = CHR ''N'' \<or> c = CHR ''E''"
  shows "\<exists>tr'. fix_trace_20 S net tr = Inr tr' \<and> station tr' = ''PIR'' \<and> channel tr' = ''EH'' @ [c]"
  using assms
  by (auto simp: fix_trace_20_def zne_rule_20_def gain_rule_20_def last_slice_def last_char_def
      strip_location_def)

lemma pir_num_20:
  assumes "station tr = ''PIR1'' \<or> station tr = ''PIR2''"
  shows "\<exists>tr'. fix_trace_20 S net tr = Inr tr' \<and> station tr' = station tr \<and>
           channel tr' = (if well_formed_channel (channel tr) then channel tr else ''EHZ'')"
  using assms
  by (auto simp: fix_trace_20_def zne_rule_20_def gain_rule_20_def last_slice_def last_char_def
      strip_location_def)

lemma pir_zne_02:
  assumes "snapshot_step net S tr tr'" and "1 < length (filter (prefix ''PIR'') S)"
    and "station tr = ''PIR'' @ [c]"
    and "c = CHR ''Z'' \<or> c = CHR ''N'' \<or> c = CHR ''E''"
  shows "station tr' = ''PIR'' \<and> channel tr' = ''EH'' @ [c]"
proof -
  from assms(1) obtain d r where
    m: "\<And>t. station t = station tr \<or> station t = take 3 (station tr) \<Longrightarrow>
          multi_02 d t r = (1 < length (filter (prefix (take 3 (station tr))) S))"
    and t: "fix_trace_02 net d tr r = Inr tr'"
    unfolding snapshot_step_def by blast
  have "multi_02 d (tr\<lparr>network := net\<rparr>) r" using m [of "tr\<lparr>network := net\<rparr>"] assms(2,3) by simp
  then show ?thesis using t assms(3,4)
    by (auto simp: fix_trace_02_def zne_rule_02_def last_char_def)
qed

lemma pir_num_02:
  assumes "snapshot_step net S tr tr'" and "station tr = ''PIR1'' \<or> station tr = ''PIR2''"
  shows "station tr' = station tr \<and> channel tr' = ''EHZ''"
proof -
  from assms(1) obtain d r where t: "fix_trace_02 net d tr r = Inr tr'"
    unfolding snapshot_step_def by blast
  then show ?thesis using assms(2)
    by (auto simp: fix_trace_02_def zne_rule_02_def low_gain_02_def high_gain_02_def
        last_char_def)
qed

subsection \<open>The normalizers on the concrete batches\<close>

lemmas eval_20 = fix_seedid_20_def fix_trace_20_def zne_rule_20_def gain_rule_20_def
  last_slice_def last_char_def nth_char_def py_strip_def strip_location_def
  well_formed_channel_def raw_trace_def fixed_trace_def

lemmas eval_02 = fix_seedid_02_def fix_trace_02_def zne_rule_02_def low_gain_02_def
  high_gain_02_def multi_02_def select_count_def upper_def upper_char_def
  last_char_def nth_char_def raw_trace_def fixed_trace_def

lemma pir_batch_20:
  "fix_seedid_20 pir_batch ''NR'' =
     Inr [fixed_trace ''PIR1'' ''EHN'', fixed_trace ''PIR2'' ''EHZ'', fixed_trace ''PIR'' ''EHZ'',
          fixed_trace ''PIR'' ''EHN'', fixed_trace ''PIR'' ''EHE'']"
  by (simp add: pir_batch_def eval_20)

lemma pir_batch_02:
  "fix_seedid_02 pir_batch ''NR'' =
     Inr [fixed_trace ''PIR1'' ''EHZ'', fixed_trace ''PIR2'' ''EHZ'', fixed_trace ''PIR'' ''EHZ'',
          fixed_trace ''PIR'' ''EHN'', fixed_trace ''PIR'' ''EHE'']"
  by (simp add: pir_batch_def eval_02)

lemma rev_pir_batch_20:
  "fix_seedid_20 (rev pir_batch) ''NR'' =
     Inr [fixed_trace ''PIR'' ''EHE'', fixed_trace ''PIR'' ''EHN'', fixed_trace ''PIR'' ''EHZ'',
          fixed_trace ''PIR2'' ''EHZ'', fixed_trace ''PIR1'' ''EHN'']"
  by (simp add: pir_batch_def eval_20)

lemma irig_first_02: "fix_seedid_02 irig_first ''NR'' = Inr [fixed_trace ''IRIZ'' ''EHZ'']"
  by (simp add: irig_first_def eval_02)

lemma iriz_first_02: "fix_seedid_02 iriz_first ''NR'' = Inr [fixed_trace ''IRI'' ''EHZ'']"
  by (simp add: iriz_first_def eval_02)

lemma irig_first_20: "fix_seedid_20 irig_first ''NR'' = Inr [fixed_trace ''IRI'' ''EHZ'']"
  by (simp add: irig_first_def eval_20)

lemma abc_batch_02: "fix_seedid_02 abc_batch ''NR'' = Inr [fixed_trace ''ABC'' ''EHZ'']"
  by (simp add: abc_batch_def eval_02)

lemma abc_batch_20: "fix_seedid_20 abc_batch ''NR'' = Inr [fixed_trace ''ABC'' ''EHN'']"
  by (simp add: abc_batch_def eval_20)

lemma lower_batch_02:
  "fix_seedid_02 lower_batch ''NR'' = Inr [fixed_trace ''pir'' ''EHZ'', fixed_trace ''PIR'' ''EHN'']"
  by code_simp

lemma lower_batch_20:
  "fix_seedid_20 lower_batch ''NR'' = Inr [fixed_trace ''pirZ'' ''EHZ'', fixed_trace ''PIRN'' ''EHZ'']"
  by (simp add: lower_batch_def eval_20)

lemma mixed_batch_02:
  "fix_seedid_02 mixed_batch ''NR'' =
     Inr [fixed_trace ''IRI'' ''EHZ'', fixed_trace ''IRI'' ''EHN'', fixed_trace ''OLL'' ''EHZ'',
          fixed_trace ''OLL'' ''EHN'', fixed_trace ''REC1'' ''EHZ'', fixed_trace ''REC'' ''ELZ'',
          fixed_trace ''REC'' ''EHZ'', fixed_trace ''ABC'' ''EHZ'']"
  by (simp add: mixed_batch_def eval_02)

lemma mixed_batch_20:
  "fix_seedid_20 mixed_batch ''NR'' =
     Inr [fixed_trace ''IRI'' ''EHZ'', fixed_trace ''IRI'' ''EHN'', fixed_trace ''OLL'' ''EHZ'',
          fixed_trace ''OLL'' ''EHN'', fixed_trace ''REC1'' ''EHZ'', fixed_trace ''REC'' ''ELZ'',
          fixed_trace ''REC'' ''EHZ'', fixed_trace ''ABC'' ''EHN'']"
  by (simp add: mixed_batch_def eval_20)

lemma mixed_batch_same:
  "map (\<lambda>p. same_siblings (map station mixed_batch) (snd p) (fst p) \<and>
              same_channel (map station mixed_batch) (fst p))
     (kept_with_live [] mixed_batch) =
     [True, True, True, True, True, True, True, False]"
  by (simp add: mixed_batch_def raw_trace_def same_siblings_def same_channel_def
      rule_letter_def zne_applies_def low_gain_applies_def multi_for_root_def
      well_formed_channel_def last_slice_def)

lemma irig_first_same:
  "map (\<lambda>p. same_siblings (map station irig_first) (snd p) (fst p))
     (kept_with_live [] irig_first) = [False]"
  by (simp add: irig_first_def raw_trace_def same_siblings_def rule_letter_def
      multi_for_root_def last_slice_def)

lemma nameless_batch_02: "fix_seedid_02 nameless_batch ''NR'' = Inl IndexError"
  by (simp add: nameless_batch_def eval_02)

lemma nameless_batch_20: "fix_seedid_20 nameless_batch ''NR'' = Inr [fixed_trace [] ''EHZ'']"
  by (simp add: nameless_batch_def eval_20)

lemma irig_batch_20: "fix_seedid_20 irig_batch ''NR'' = Inr irig_batch_fixed"
  by (simp add: irig_batch_def irig_batch_fixed_def fix_seedid_20_def fix_trace_20_def
      zne_rule_20_def gain_rule_20_def last_slice_def py_strip_def strip_location_def
      well_formed_channel_def)

lemma irig_batch_02: "fix_seedid_02 irig_batch ''NR'' = Inr irig_batch_fixed"
  by (simp add: irig_batch_def irig_batch_fixed_def fix_seedid_02_def fix_trace_02_def
      zne_rule_02_def last_char_def)

section \<open>Rounding and end times\<close>

lemma round_away_of_int: "round_away (of_int z) = z"
proof -
  have "\<lfloor>(of_int z :: rat) + 1 / 2\<rfloor> = z" by (simp add: floor_eq_iff)
  moreover have "\<lfloor>- (of_int z :: rat) + 1 / 2\<rfloor> = - z"
    using floor_eq_iff [of "- (of_int z :: rat) + 1 / 2" "- z"] by simp
  ultimately show ?thesis by (simp add: round_away_def)
qed

lemma endtime_nonempty:
  "data tr \<noteq> [] \<Longrightarrow> sampling_rate tr \<noteq> 0 \<Longrightarrow>
     endtime tr = starttime tr + (of_nat (length (data tr)) - 1) / sampling_rate tr"
  by (simp add: endtime_def npts_def delta_def)

lemma round_away_small: "0 \<le> x \<Longrightarrow> x < 1 / 2 \<Longrightarrow> round_away x = 0"
  by (simp add: round_away_def floor_eq_iff)

section \<open>Properties of the day splitter\<close>

lemma split_loop_done:
  "endtime cur \<le> day_start (starttime cur) + 86400 \<Longrightarrow>
     split_loop parts cur = Some (Inr (parts @ [cur]))"
  by (subst split_loop.simps) simp

lemma split_loop_step:
  "\<not> endtime cur \<le> day_start (starttime cur) + 86400 \<Longrightarrow>
   trim cur (starttime cur) (day_start (starttime cur) + 86400) = Inr left \<Longrightarrow>
   trim cur (day_start (starttime cur) + 86400) (endtime cur) = Inr cur' \<Longrightarrow>
     split_loop parts cur = split_loop (parts @ [left]) cur'"
  by (subst split_loop.simps) (simp add: Let_def)

lemma split_loop_stuck:
  assumes "\<not> endtime cur \<le> day_start (starttime cur) + 86400"
    and "trim cur (starttime cur) (day_start (starttime cur) + 86400) = Inr left"
    and "trim cur (day_start (starttime cur) + 86400) (endtime cur) = Inr cur"
  shows "split_loop parts cur = None"
proof (rule ccontr)
  assume "split_loop parts cur \<noteq> None"
  then obtain y where y: "split_loop parts cur = Some y" by auto
  have "cur \<noteq> cur"
  proof (rule split_loop.raw_induct [where P = "\<lambda>ps c y. c \<noteq> cur", OF _ y])
    fix f ps c z
    assume IH: "\<And>ps c z. f ps c = Some z \<Longrightarrow> c \<noteq> cur"
      and body: "(let st = starttime c; et = endtime c; day_end = day_start st + 86400
                  in if et \<le> day_end then Some (Inr (ps @ [c]))
                     else case trim c st day_end of
                            Inl e \<Rightarrow> Some (Inl e)
                          | Inr left \<Rightarrow>
                              (case trim c day_end et of
                                 Inl e \<Rightarrow> Some (Inl e)
                               | Inr cur' \<Rightarrow> f (ps @ [left]) cur')) = Some z"
    show "c \<noteq> cur"
    proof
      assume "c = cur"
      then have "f (ps @ [left]) cur = Some z" using body assms by (simp add: Let_def)
      then show False using IH by blast
    qed
  qed
  then show False by simp
qed

lemma split_unsplit:
  "endtime tr \<le> day_start (starttime tr) + 86400 \<Longrightarrow>
     split_trace_at_midnights tr = Some (Inr [tr])"
  by (simp add: split_trace_at_midnights_def split_loop_done)

text \<open>
  With a sample at midnight the loop ends, and that sample is the last of the first piece
  and the first of the second.
\<close>

lemma aligned_split:
  "split_trace_at_midnights aligned_trace =
     Some (Inr [sample_trace (86400 - 2) 1 [1, 2, 3], sample_trace 86400 1 [3, 4]])"
proof -
  let ?left = "sample_trace (86400 - 2) 1 [1, 2, 3]"
  let ?right = "sample_trace 86400 1 [3, 4]"
  have 1: "\<not> endtime aligned_trace \<le> day_start (starttime aligned_trace) + 86400"
    by code_simp
  have 2: "trim aligned_trace (starttime aligned_trace)
             (day_start (starttime aligned_trace) + 86400) = Inr ?left"
    by code_simp
  have 3: "trim aligned_trace (day_start (starttime aligned_trace) + 86400)
             (endtime aligned_trace) = Inr ?right"
    by code_simp
  have 4: "endtime ?right \<le> day_start (starttime ?right) + 86400"
    by code_simp
  show ?thesis
    unfolding split_trace_at_midnights_def
    by (simp only: split_loop_step [OF 1 2 3] split_loop_done [OF 4] append_Nil append_Cons)
qed

text \<open>
  The loop does not end for any trace of two samples or more that starts less than half
  a sample before midnight: its first sample is the one nearest to midnight, so the
  remainder that \<open>trim\<close> returns is the trace itself.
\<close>

lemma split_stuck_near_midnight:
  assumes sr: "0 < sampling_rate tr" and n: "2 \<le> length (data tr)"
    and x: "0 < (day_start (starttime tr) + 86400 - starttime tr) * sampling_rate tr"
           "(day_start (starttime tr) + 86400 - starttime tr) * sampling_rate tr < 1 / 2"
  shows "split_trace_at_midnights tr = None"
proof -
  let ?e = "day_start (starttime tr) + 86400"
  let ?n = "length (data tr)"
  have ne: "data tr \<noteq> []" using n by auto
  have et: "endtime tr = starttime tr + (of_nat ?n - 1) / sampling_rate tr"
    using endtime_nonempty [OF ne] sr by simp
  have r0: "round_away ((?e - starttime tr) * sampling_rate tr) = 0"
    using x by (intro round_away_small) simp_all
  have lt: "starttime tr < ?e"
    using x(1) sr by (simp add: zero_less_mult_iff)
  have "(?e - starttime tr) * sampling_rate tr < of_nat ?n - 1"
    using x(2) n by (simp add: algebra_simps)
  then have "?e - starttime tr < (of_nat ?n - 1) / sampling_rate tr"
    using sr by (simp add: pos_less_divide_eq)
  then have 1: "\<not> endtime tr \<le> ?e" by (simp add: et)
  have rn: "round_away ((endtime tr - starttime tr) * sampling_rate tr) = int ?n - 1"
  proof -
    have "(endtime tr - starttime tr) * sampling_rate tr = of_int (int ?n - 1)"
      using sr by (simp add: et)
    then show ?thesis by (simp only: round_away_of_int)
  qed
  have 2: "trim tr (starttime tr) ?e = Inr (tr\<lparr>data := take 1 (data tr)\<rparr>)"
    using lt r0 n by (simp add: trim_def ltrim_def rtrim_def round_away_def npts_def slice_to_def)
  have 3: "trim tr ?e (endtime tr) = Inr tr"
    using 1 r0 rn by (simp add: trim_def ltrim_def rtrim_def npts_def)
  show ?thesis
    unfolding split_trace_at_midnights_def by (rule split_loop_stuck [OF 1 2 3])
qed

section \<open>Properties of the merges\<close>

lemma merge_checks_pair:
  "merge_checks [a, b] =
     (data a = [] \<or> data b = [] \<or> trace_id a \<noteq> trace_id b \<or> sampling_rate a = sampling_rate b)"
  by (auto simp: merge_checks_def)

lemma merge_traces_single:
  assumes "data a \<noteq> []"
  shows "merge_traces m f [a] = [a]"
  using assms by (simp add: merge_traces_def merge_id_def)

lemma merge_traces_pair:
  assumes id: "trace_id a = trace_id b" and ne: "data a \<noteq> []" "data b \<noteq> []"
    and lt: "starttime a < starttime b"
  shows "merge_traces m f [a, b] = [trace_add m f a b]"
proof -
  let ?k = "\<lambda>p :: nat \<times> trace. (trace_id (snd p), starttime (snd p), endtime (snd p))"
  have le: "?k (i, a) \<le> ?k (j, b)" for i j
    using id lt by (auto simp: less_eq_prod_def less_prod_def)
  have srt: "sort_key ?k (zip [0..<length [a, b]] [a, b]) = [(0, a), (Suc 0, b)]"
    using le by (simp add: upt_rec)
  have flt: "filter (\<lambda>p. data (snd p) \<noteq> []) [(0, a), (Suc 0, b)] = [(0, a), (Suc 0, b)]"
    using ne by simp
  have ids: "rev (remdups (rev (map (\<lambda>p. trace_id (snd p)) [(0 :: nat, a), (Suc 0, b)]))) =
               [trace_id b]"
    using id by simp
  have grp: "filter (\<lambda>p. trace_id (snd p) = trace_id b) [(0 :: nat, a), (Suc 0, b)] =
               [(0, a), (Suc 0, b)]"
    using id by simp
  have mid: "merge_id m f [(0, a), (Suc 0, b)] = [(- 1, trace_add m f a b)]"
    by (simp add: merge_id_def)
  show ?thesis
    unfolding merge_traces_def Let_def srt flt ids using id by (simp add: mid)
qed

lemma cleanup_pair:
  assumes id: "trace_id a = trace_id b" and sr: "sampling_rate a = sampling_rate b"
    and ne: "data a \<noteq> []" "data b \<noteq> []" and lt: "starttime a < starttime b"
    and step: "cleanup_step a b = Inr (out, cur)"
  shows "cleanup [a, b] = Inr (filter (\<lambda>tr. data tr \<noteq> []) (out @ [cur]))"
    and "cleanup [b, a] = Inr (filter (\<lambda>tr. data tr \<noteq> []) (out @ [cur]))"
proof -
  define k where "k = (\<lambda>tr :: trace. (trace_id tr, starttime tr, endtime tr))"
  have le: "k a \<le> k b" "\<not> k b \<le> k a"
    using id lt by (auto simp: k_def less_eq_prod_def less_prod_def)
  have "sort_key k [a, b] = [a, b]" "sort_key k [b, a] = [a, b]"
    using le by simp_all
  then have s1: "sort_key (\<lambda>tr. (trace_id tr, starttime tr, endtime tr)) [a, b] = [a, b]"
    "sort_key (\<lambda>tr. (trace_id tr, starttime tr, endtime tr)) [b, a] = [a, b]"
    by (simp_all only: k_def)
  have sp: "split_by_id [a, b] = [[a, b]]"
    using id by (simp add: split_by_id_def)
  have grp: "cleanup_groups [[a, b]] = Inr (out @ [cur])"
    using step by simp
  have mc: "merge_checks [a, b]" "merge_checks [b, a]"
    using sr by (simp_all add: merge_checks_pair)
  have f: "filter (\<lambda>tr. data tr \<noteq> []) [a, b] = [a, b]"
    "filter (\<lambda>tr. data tr \<noteq> []) [b, a] = [b, a]"
    using ne by simp_all
  show "cleanup [a, b] = Inr (filter (\<lambda>tr. data tr \<noteq> []) (out @ [cur]))"
    unfolding cleanup_def Let_def f using mc by (simp only: s1 sp grp) simp
  show "cleanup [b, a] = Inr (filter (\<lambda>tr. data tr \<noteq> []) (out @ [cur]))"
    unfolding cleanup_def Let_def f using mc by (simp only: s1 sp grp) simp
qed

lemma stream_merge_pair:
  assumes id: "trace_id a = trace_id b" and sr: "sampling_rate a = sampling_rate b"
    and ne: "data a \<noteq> []" "data b \<noteq> []" and lt: "starttime a < starttime b"
    and step: "cleanup_step a b = Inr ([a], b) \<or>
               cleanup_step a b = Inr ([], trace_add m f a b) \<and> data (trace_add m f a b) \<noteq> []"
  shows "stream_merge m f [a, b] = Inr [trace_add m f a b]"
    and "stream_merge m f [b, a] = Inr [trace_add m f a b]"
proof -
  have "stream_merge m f [a, b] = Inr [trace_add m f a b] \<and>
        stream_merge m f [b, a] = Inr [trace_add m f a b]"
    using step
  proof
    assume s: "cleanup_step a b = Inr ([a], b)"
    have c: "cleanup [a, b] = Inr [a, b]" "cleanup [b, a] = Inr [a, b]"
      using cleanup_pair [OF id sr ne lt s] ne by simp_all
    have mc: "merge_checks [a, b]" using sr by (simp add: merge_checks_pair)
    show ?thesis
      using mc merge_traces_pair [OF id ne lt] by (simp add: stream_merge_def c)
  next
    assume s: "cleanup_step a b = Inr ([], trace_add m f a b) \<and> data (trace_add m f a b) \<noteq> []"
    then have s1: "cleanup_step a b = Inr ([], trace_add m f a b)"
      and n1: "data (trace_add m f a b) \<noteq> []" by simp_all
    have c: "cleanup [a, b] = Inr [trace_add m f a b]" "cleanup [b, a] = Inr [trace_add m f a b]"
      using cleanup_pair [OF id sr ne lt s1] n1 by simp_all
    have mc: "merge_checks [trace_add m f a b]" by (simp add: merge_checks_def)
    show ?thesis
      using mc merge_traces_single [OF n1] by (simp add: stream_merge_def c)
  qed
  then show "stream_merge m f [a, b] = Inr [trace_add m f a b]"
    and "stream_merge m f [b, a] = Inr [trace_add m f a b]" by simp_all
qed

lemma round_away_gt1: "1 < round_away x \<Longrightarrow> 3 / 2 \<le> x"
  by (auto simp: round_away_def split: if_splits) linarith+

lemma gap_rate_positive:
  assumes ne: "data a \<noteq> []" and lt: "starttime a < starttime b"
    and x: "3 / 2 \<le> (starttime b - endtime a) * sampling_rate a"
  shows "0 < sampling_rate a"
proof (rule ccontr)
  assume "\<not> 0 < sampling_rate a"
  then consider "sampling_rate a = 0" | "sampling_rate a < 0" by fastforce
  then show False
  proof cases
    case 1
    then show ?thesis using x by simp
  next
    case 2
    have n: "(1 :: rat) \<le> of_nat (length (data a))"
      using ne by (cases "data a") simp_all
    have "(of_nat (length (data a)) - 1) / sampling_rate a \<le> 0"
      using 2 n by (simp add: divide_nonneg_neg divide_le_0_iff)
    then have ea: "endtime a \<le> starttime a"
      using endtime_nonempty [OF ne] 2 by simp
    have "0 < (starttime b - endtime a) * sampling_rate a" using x by simp
    then have "starttime b - endtime a < 0" using 2 by (simp add: zero_less_mult_iff)
    then show ?thesis using ea lt by simp
  qed
qed

lemma cleanup_step_gap:
  assumes ne: "data a \<noteq> []" and lt: "starttime a < starttime b"
    and g: "0 < round_away ((starttime b - endtime a) * sampling_rate a) - 1"
  shows "cleanup_step a b = Inr ([a], b)"
proof -
  let ?sr = "sampling_rate a"
  have x: "3 / 2 \<le> (starttime b - endtime a) * ?sr"
    using g by (intro round_away_gt1) simp
  have sr: "0 < ?sr" by (rule gap_rate_positive [OF ne lt x])
  have dl: "delta a = 1 / ?sr" "0 < delta a" using sr by (simp_all add: delta_def)
  have y: "3 / 2 * delta a \<le> starttime b - endtime a"
    using x sr by (simp add: dl pos_divide_le_eq)
  have gap: "\<not> starttime b - (endtime a + delta a) \<le> misalignment_threshold * delta a"
    using y dl(2) by (simp add: misalignment_threshold_def)
  have al: "align a b = b" using gap by (simp add: align_def Let_def)
  have c1: "\<not> starttime b \<le> endtime a" using y dl(2) by (simp add: not_le)
  have c2: "starttime b \<noteq> endtime a + delta a" using y dl(2) by auto
  show ?thesis
    unfolding cleanup_step_def Let_def al using dl(2) c1 c2 by simp
qed

lemma py_mod_multiple: "d \<noteq> 0 \<Longrightarrow> py_mod (of_int z * d) d = 0"
  by (simp add: py_mod_def)

lemma cleanup_step_overlap:
  assumes sr: "sampling_rate a = sampling_rate b" "0 < sampling_rate a"
    and st: "starttime b = starttime a + of_nat k / sampling_rate a"
    and k: "0 < k" "k < length (data a)" "length (data a) < k + length (data b)"
  shows "cleanup_step a b =
           Inr (if drop k (data a) = take (length (data a) - k) (data b)
                then ([], trace_add 0 None a b) else ([a], b))"
proof -
  let ?n = "length (data a)" and ?m = "length (data b)" and ?sr = "sampling_rate a"
  have ne: "data a \<noteq> []" "data b \<noteq> []" using k by auto
  have dl: "delta a = 1 / ?sr" "0 < delta a" "delta a \<noteq> 0" "delta b = 1 / ?sr"
    using sr by (simp_all add: delta_def)
  have ea: "endtime a = starttime a + (of_nat ?n - 1) / ?sr"
    using endtime_nonempty [OF ne(1)] sr by simp
  have eb: "endtime b = starttime a + of_nat k / ?sr + (of_nat ?m - 1) / ?sr"
    using endtime_nonempty [OF ne(2)] sr st by simp
  have gap: "starttime b - (endtime a + delta a) = of_int (int k - int ?n) * delta a"
    using sr(2) by (simp add: st ea dl(1) field_simps)
  have pm: "py_mod (starttime b - (endtime a + delta a)) (delta a) = 0"
    unfolding gap by (rule py_mod_multiple [OF dl(3)])
  have al: "align a b = b"
    unfolding align_def Let_def pm by simp
  have "starttime b - starttime a = of_int (int k) * delta a" by (simp add: st dl(1))
  then have sh: "py_mod (starttime b - starttime a) (delta a) = 0"
    using py_mod_multiple [OF dl(3), of "int k"] by (simp only:)
  have kn: "(of_nat k :: rat) \<le> of_nat ?n - 1" using k(2) by (simp add: algebra_simps)
  have le: "starttime b \<le> endtime a"
    using kn sr(2) by (simp add: st ea divide_right_mono)
  have "(of_nat ?n :: rat) < of_nat k + of_nat ?m" using k(3) by (metis of_nat_add of_nat_less_iff)
  then have "(of_nat ?n - 1) / ?sr < of_nat k / ?sr + (of_nat ?m - 1) / ?sr"
    using sr(2) by (simp add: add_divide_distrib [symmetric] divide_strict_right_mono del: add_divide_distrib)
  then have lt: "endtime a < endtime b" by (simp add: ea eb)
  then have mn: "min (endtime a) (endtime b) = endtime a" by simp
  have r1: "round_away ((starttime b - starttime a) * ?sr) = int k"
  proof -
    have "(starttime b - starttime a) * ?sr = of_int (int k)" using sr(2) by (simp add: st)
    then show ?thesis by (simp only: round_away_of_int)
  qed
  let ?a1 = "a\<lparr>starttime := starttime b, data := drop k (data a)\<rparr>"
  have sb: "starttime a + of_nat k * delta a = starttime b" by (simp add: st dl(1))
  have e1: "endtime (a\<lparr>starttime := starttime b\<rparr>) = starttime b + (of_nat ?n - 1) / ?sr"
    using ne(1) sr(2) by (simp add: endtime_def npts_def delta_def)
  have nn: "(0 :: rat) \<le> (of_nat ?n - 1) / ?sr" using sr(2) ne(1) by (cases "data a") simp_all
  have lta: "ltrim a (starttime b) = ?a1"
    unfolding ltrim_def Let_def r1 using k(1) nn by (simp add: sb e1)
  have r2: "round_away ((endtime a - starttime b) * ?sr) = int ?n - 1 - int k"
  proof -
    have "(endtime a - starttime b) * ?sr = of_int (int ?n - 1 - int k)"
      using sr(2) by (simp add: st ea field_simps)
    then show ?thesis by (simp only: round_away_of_int)
  qed
  have rta: "rtrim ?a1 (endtime a) = ?a1"
    unfolding rtrim_def Let_def using k(2) r2 by (simp add: npts_def)
  have ta: "trim a (starttime b) (endtime a) = Inr ?a1"
    using le by (simp add: trim_def lta rta)
  have ltb: "ltrim b (starttime b) = b" by (simp add: ltrim_def round_away_def)
  have r3: "round_away ((endtime a - starttime b) * sampling_rate b) = int ?n - 1 - int k"
    using r2 sr(1) by simp
  have rtb: "data (rtrim b (endtime a)) = take (?n - k) (data b)"
  proof (cases "endtime a = starttime b")
    case True
    then have "int ?n - 1 - int k = 0" using r2 round_away_of_int [of 0] by simp
    then have "?n - k = 1" using k(2) by linarith
    then show ?thesis
      unfolding rtrim_def Let_def r3 using k True by (simp add: npts_def slice_to_def)
  next
    case False
    have "int ?m - \<bar>int ?n - 1 - int k - int ?m + 1\<bar> = int (?n - k)" using k by linarith
    then show ?thesis
      unfolding rtrim_def Let_def r3 using k False le
      by (simp add: npts_def slice_to_def nat_diff_distrib)
  qed
  have tb: "trim b (starttime b) (endtime a) = Inr (rtrim b (endtime a))"
    using le by (simp add: trim_def ltb)
  show ?thesis
    unfolding cleanup_step_def Let_def al sh mn ta tb
    using dl(3) le by (simp add: misalignment_threshold_def rtb)
qed

lemma trace_add_gap:
  assumes "starttime a \<le> starttime b"
    and "0 < round_away ((starttime b - endtime a) * sampling_rate a) - 1"
  shows "trace_add m f a b =
           a\<lparr>data := data a @
                replicate (nat (round_away ((starttime b - endtime a) * sampling_rate a) - 1)) f @
                data b\<rparr>"
  using assms by (simp add: trace_add_def Let_def)

lemma trace_add_overlap:
  assumes sr: "sampling_rate a = sampling_rate b" "0 < sampling_rate a"
    and st: "starttime b = starttime a + of_nat k / sampling_rate a"
    and k: "0 < k" "k < length (data a)" "length (data a) < k + length (data b)"
  shows "trace_add m f a b =
           a\<lparr>data :=
               (if drop k (data a) = take (length (data a) - k) (data b) \<or> m \<noteq> 0
                then take k (data a) @ data b
                else take k (data a) @ replicate (length (data a) - k) f @
                     drop (length (data a) - k) (data b))\<rparr>"
proof -
  let ?n = "length (data a)" and ?m = "length (data b)" and ?sr = "sampling_rate a"
  have ne: "data a \<noteq> []" "data b \<noteq> []" using k by auto
  have ea: "endtime a = starttime a + (of_nat ?n - 1) / ?sr"
    using endtime_nonempty [OF ne(1)] sr by simp
  have eb: "endtime b = starttime a + of_nat k / ?sr + (of_nat ?m - 1) / ?sr"
    using endtime_nonempty [OF ne(2)] sr st by simp
  have "(starttime b - endtime a) * ?sr = of_int (int k - int ?n + 1)"
    using sr(2) by (simp add: st ea field_simps)
  then have "round_away ((starttime b - endtime a) * ?sr) = int k - int ?n + 1"
    by (simp only: round_away_of_int)
  then have d: "round_away ((starttime b - endtime a) * ?sr) - 1 = int k - int ?n"
    by simp
  have "endtime a - endtime b = (of_nat ?n - of_nat k - of_nat ?m) / ?sr"
    by (simp add: ea eb diff_divide_distrib)
  moreover have "(of_nat ?n - of_nat k - of_nat ?m :: rat) < 0"
    using k(3) by (simp add: algebra_simps)
  ultimately have de: "endtime a - endtime b < 0"
    using sr(2) by (simp add: divide_neg_pos)
  have le: "starttime a \<le> starttime b" using st sr(2) by simp
  have neg: "int k - int ?n < 0" using k by simp
  have i1: "py_index (int k - int ?n) ?n = k" using k by (simp add: py_index_def)
  have nk: "?n - k \<le> ?m" using k by simp
  have sl: "slice_from (int k - int ?n) (data a) = drop k (data a)"
    "slice_to (int k - int ?n) (data a) = take k (data a)"
    "slice_to (- (int k - int ?n)) (data b) = take (?n - k) (data b)"
    "slice_from (- (int k - int ?n)) (data b) = drop (?n - k) (data b)"
    "nat (- (int k - int ?n)) = ?n - k"
    using k nk by (simp_all add: slice_from_def slice_to_def py_index_def nat_diff_distrib min_def)
  show ?thesis
    unfolding trace_add_def Let_def using le neg de ne
    by (simp only: d sl if_True) (auto)
qed

lemma merge_pair_gap:
  assumes id: "trace_id a = trace_id b" and sr: "sampling_rate a = sampling_rate b"
    and ne: "data a \<noteq> []" "data b \<noteq> []" and lt: "starttime a < starttime b"
    and g: "0 < round_away ((starttime b - endtime a) * sampling_rate a) - 1"
  shows "bucket_merge [a, b] = Inr [trace_add 1 None a b]"
    and "bucket_merge [b, a] = Inr [trace_add 1 None a b]"
    and "append_and_merge [a] [b] = Inr [trace_add 0 (Some 0) a b]"
proof -
  have step: "cleanup_step a b = Inr ([a], b) \<or>
              cleanup_step a b = Inr ([], trace_add m f a b) \<and> data (trace_add m f a b) \<noteq> []"
    for m f
    using cleanup_step_gap [OF ne(1) lt g] by simp
  show "bucket_merge [a, b] = Inr [trace_add 1 None a b]"
    and "bucket_merge [b, a] = Inr [trace_add 1 None a b]"
    and "append_and_merge [a] [b] = Inr [trace_add 0 (Some 0) a b]"
    using stream_merge_pair [OF id sr ne lt step]
    by (simp_all add: bucket_merge_def append_and_merge_def)
qed

lemma merge_pair_overlap:
  assumes id: "trace_id a = trace_id b"
    and sr: "sampling_rate a = sampling_rate b" "0 < sampling_rate a"
    and st: "starttime b = starttime a + of_nat k / sampling_rate a"
    and k: "0 < k" "k < length (data a)" "length (data a) < k + length (data b)"
  shows "bucket_merge [a, b] = Inr [trace_add 1 None a b]"
    and "bucket_merge [b, a] = Inr [trace_add 1 None a b]"
    and "append_and_merge [a] [b] = Inr [trace_add 0 (Some 0) a b]"
proof -
  have ne: "data a \<noteq> []" "data b \<noteq> []" using k by auto
  have lt: "starttime a < starttime b" using st sr(2) k(1) by simp
  have step: "cleanup_step a b = Inr ([a], b) \<or>
              cleanup_step a b = Inr ([], trace_add m f a b) \<and> data (trace_add m f a b) \<noteq> []"
    for m f
  proof (cases "drop k (data a) = take (length (data a) - k) (data b)")
    case True
    have "trace_add 0 None a b = trace_add m f a b"
      using True by (simp add: trace_add_overlap [OF sr st k])
    moreover have "data (trace_add m f a b) \<noteq> []"
      using True ne by (simp add: trace_add_overlap [OF sr st k])
    ultimately show ?thesis
      using True by (simp add: cleanup_step_overlap [OF sr st k])
  next
    case False
    then show ?thesis by (simp add: cleanup_step_overlap [OF sr st k])
  qed
  show "bucket_merge [a, b] = Inr [trace_add 1 None a b]"
    and "bucket_merge [b, a] = Inr [trace_add 1 None a b]"
    and "append_and_merge [a] [b] = Inr [trace_add 0 (Some 0) a b]"
    using stream_merge_pair [OF id sr(1) ne lt step]
    by (simp_all add: bucket_merge_def append_and_merge_def)
qed

lemma round_sampling_rates_rate:
  "map sampling_rate (round_sampling_rates st) =
     map (\<lambda>tr. if \<bar>sampling_rate tr - of_int (py_round (sampling_rate tr))\<bar> < 1 / 1000000
               then of_int (py_round (sampling_rate tr)) else sampling_rate tr) st"
  by (simp add: round_sampling_rates_def Let_def comp_def if_distrib [of sampling_rate] cong: if_cong)

text \<open>
  Off the sampling points of the first trace the offset of the second is rounded to whole
  samples: the merged trace of \<open>overlap_a\<close> and \<open>offgrid_b\<close> ends at 14 s, the second
  trace at 13.6 s.
\<close>

lemma overlap_off_grid:
  "bucket_merge [overlap_a, offgrid_b] =
     Inr [sample_trace 0 1 [1, 2, 3, 4, 5, 101, 102, 103, 104, 105, 106, 107, 108, 109, 110]] \<and>
   endtime (sample_trace 0 1 [1, 2, 3, 4, 5, 101, 102, 103, 104, 105, 106, 107, 108, 109, 110]) = 14 \<and>
   endtime offgrid_b = 136 / 10"
  by code_simp

text \<open>
  With three traces \<open>_cleanup\<close> matters: it joins the second and the third trace, which
  fit together, before the merge adds the traces up from the left.
\<close>

lemma cleanup_joins_first:
  "cleanup three_fragments = Inr [sample_trace 0 1 [1, 1], sample_trace 1 1 [9, 5, 6]] \<and>
   bucket_merge three_fragments = Inr [sample_trace 0 1 [1, 9, 5, 6]]"
  by code_simp

section \<open>Properties of the loop over the bins\<close>

lemma write_bins_ready:
  assumes "list_all (bin_ready env) bins"
  shows "write_bins env bins lg =
           Done (lg\<lparr>wrote := wrote lg + length (filter (bin_written env) bins),
                     files := files lg @ map (\<lambda>b. (fst b, bin_stream b)) (filter (bin_written env) bins),
                     errors := errors lg @ map fst (filter (\<lambda>b. \<not> bin_written env b) bins)\<rparr>)"
  using assms
proof (induction bins arbitrary: lg)
  case Nil
  then show ?case by simp
next
  case (Cons b bins)
  obtain key st where b: "b = (key, st)" by (cases b)
  from Cons.prems have r: "bin_ready env (key, st)" and rs: "list_all (bin_ready env) bins"
    by (simp_all add: b)
  from r obtain tr0 others where m: "bucket_merge st = Inr (tr0 # others)"
    and mk: "mkdir_ok env key"
    by (auto simp: bin_ready_def split: sum.splits list.splits)
  have bs: "bin_stream (key, st) = relabel key tr0 # others" by (simp add: bin_stream_def m)
  show ?case
  proof (cases "write_ok env key (relabel key tr0 # others)")
    case True
    then have w: "bin_written env (key, st)" using r bs by (simp add: bin_written_def)
    show ?thesis using True m mk w bs Cons.IH [OF rs] by (simp add: b)
  next
    case False
    then have w: "\<not> bin_written env (key, st)" using bs by (simp add: bin_written_def)
    show ?thesis using False m mk w Cons.IH [OF rs] by (simp add: b)
  qed
qed

lemma write_bins_append:
  assumes "write_bins env pre lg = Done lg'"
  shows "write_bins env (pre @ post) lg = write_bins env post lg'"
  using assms
proof (induction pre arbitrary: lg)
  case Nil
  then show ?case by simp
next
  case (Cons b pre)
  obtain key st where b: "b = (key, st)" by (cases b)
  show ?case using Cons.prems Cons.IH
    by (auto simp: b split: sum.splits list.splits if_splits)
qed

section \<open>The claims\<close>

text \<open>
  Claim C1 fails on the code. \<open>split_trace_at_midnights\<close> cuts with ObsPy's \<open>trim\<close>,
  which keeps the samples from the one nearest to the start time to the one nearest to
  the end time. For \<open>crossing_trace\<close> the sample nearest to midnight is 0.25 s after
  midnight: the first piece ends after the midnight of its day, and that sample is the
  last sample of the first piece and the first sample of the second.
\<close>

theorem split_crosses_midnight:
  "split_trace_at_midnights crossing_trace =
     Some (Inr [sample_trace (86400 - 7 / 4) 1 [1, 2, 3], sample_trace (86400 + 1 / 4) 1 [3, 4]]) \<and>
   day_start (starttime (sample_trace (86400 - 7 / 4) 1 [1, 2, 3])) + 86400 <
     endtime (sample_trace (86400 - 7 / 4) 1 [1, 2, 3]) \<and>
   endtime (sample_trace (86400 - 7 / 4) 1 [1, 2, 3]) =
     starttime (sample_trace (86400 + 1 / 4) 1 [3, 4])"
proof -
  let ?left = "sample_trace (86400 - 7 / 4) 1 [1, 2, 3]"
  let ?right = "sample_trace (86400 + 1 / 4) 1 [3, 4]"
  have 1: "\<not> endtime crossing_trace \<le> day_start (starttime crossing_trace) + 86400"
    by code_simp
  have 2: "trim crossing_trace (starttime crossing_trace)
             (day_start (starttime crossing_trace) + 86400) = Inr ?left"
    by code_simp
  have 3: "trim crossing_trace (day_start (starttime crossing_trace) + 86400)
             (endtime crossing_trace) = Inr ?right"
    by code_simp
  have 4: "endtime ?right \<le> day_start (starttime ?right) + 86400"
    by code_simp
  have 5: "day_start (starttime ?left) + 86400 < endtime ?left" by code_simp
  have 6: "endtime ?left = starttime ?right" by code_simp
  have "split_loop [] crossing_trace = Some (Inr [?left, ?right])"
    by (simp only: split_loop_step [OF 1 2 3] split_loop_done [OF 4] append_Nil append_Cons)
  then show ?thesis using 5 6 by (simp only: split_trace_at_midnights_def simp_thms)
qed

text \<open>
  Claim C2, as amended. Two traces of one id and one sampling rate, the second starting
  after the first, with \<open>g > 0\<close> samples missing between them. The merge of
  20_twominutemseed2suds.py (method 1, no fill value) returns one trace in which the gap
  is \<open>g\<close> masked samples, no data: not zeros, not interpolated values, whatever the
  order of the two traces in the bin. The merge of 02_mseed2sds.py (method 0,
  \<open>fill_value=0\<close>) returns one trace in which the gap is \<open>g\<close> zeros.
\<close>

theorem gap_kept_or_zero_filled:
  assumes "trace_id a = trace_id b" and "sampling_rate a = sampling_rate b"
    and "data a \<noteq> []" and "data b \<noteq> []" and "starttime a < starttime b"
    and "g = round_away ((starttime b - endtime a) * sampling_rate a) - 1" and "0 < g"
  shows "bucket_merge [a, b] = Inr [a\<lparr>data := data a @ replicate (nat g) None @ data b\<rparr>] \<and>
         bucket_merge [b, a] = Inr [a\<lparr>data := data a @ replicate (nat g) None @ data b\<rparr>] \<and>
         append_and_merge [a] [b] =
           Inr [a\<lparr>data := data a @ replicate (nat g) (Some 0) @ data b\<rparr>]"
proof -
  have le: "starttime a \<le> starttime b" using assms(5) by simp
  have g: "0 < round_away ((starttime b - endtime a) * sampling_rate a) - 1"
    using assms(6,7) by simp
  show ?thesis
    using merge_pair_gap [OF assms(1-5) g] trace_add_gap [OF le g] assms(6) by simp
qed

theorem gap_kept_or_zero_filled_witness:
  "bucket_merge [gap_a, gap_b] =
     Inr [gap_a\<lparr>data := [Some 1, Some 2, None, None, None, Some 5, Some 6]\<rparr>] \<and>
   bucket_merge [gap_b, gap_a] =
     Inr [gap_a\<lparr>data := [Some 1, Some 2, None, None, None, Some 5, Some 6]\<rparr>] \<and>
   append_and_merge [gap_a] [gap_b] =
     Inr [gap_a\<lparr>data := [Some 1, Some 2, Some 0, Some 0, Some 0, Some 5, Some 6]\<rparr>]"
proof -
  have h: "trace_id gap_a = trace_id gap_b" "sampling_rate gap_a = sampling_rate gap_b"
    "data gap_a \<noteq> []" "data gap_b \<noteq> []" "starttime gap_a < starttime gap_b"
    by (simp_all add: gap_a_def gap_b_def sample_trace_def trace_id_def)
  have g: "3 = round_away ((starttime gap_b - endtime gap_a) * sampling_rate gap_a) - 1"
    by code_simp
  have d: "data gap_a @ replicate (nat 3) x @ data gap_b = [Some 1, Some 2, x, x, x, Some 5, Some 6]"
    for x by (simp add: gap_a_def gap_b_def sample_trace_def numeral_3_eq_3)
  from gap_kept_or_zero_filled [OF h g] show ?thesis by (simp only: d)
qed

text \<open>
  Claim C2 as stated fails on 02_mseed2sds.py: \<open>append_and_merge\<close> merges with
  \<open>fill_value=0\<close>, and the three samples missing between the two traces come out as
  zeros.
\<close>

theorem gap_zero_filled_counterexample:
  "round_away ((starttime gap_b - endtime gap_a) * sampling_rate gap_a) - 1 = 3 \<and>
   append_and_merge [gap_a] [gap_b] = Inr [sample_trace 0 1 [1, 2, 0, 0, 0, 5, 6]]"
  by code_simp

text \<open>
  Claim C3, as amended. For a batch whose station codes are PIR1, PIR2, PIRZ, PIRN and
  PIRE (in any order, any of them more than once), both normalizers return a stream and
  map PIRZ to station PIR with channel EHZ, PIRN to (PIR, EHN) and PIRE to (PIR, EHE);
  neither renames PIR1 or PIR2. In 20_twominutemseed2suds.py, PIR1 and PIR2 keep a channel
  code of three characters ending in Z, N or E and get EHZ otherwise; in 02_mseed2sds.py
  they get EHZ whatever their channel code is.
\<close>

theorem pir_scenario:
  assumes "set (map station st) = {''PIR1'', ''PIR2'', ''PIRZ'', ''PIRN'', ''PIRE''}"
  shows "\<exists>o20 o02. fix_seedid_20 st net = Inr o20 \<and> fix_seedid_02 st net = Inr o02 \<and>
           length o20 = length st \<and> length o02 = length st \<and>
           (\<forall>i<length st.
              (station (st ! i) = ''PIRZ'' \<longrightarrow>
                 station (o20 ! i) = ''PIR'' \<and> channel (o20 ! i) = ''EHZ'' \<and>
                 station (o02 ! i) = ''PIR'' \<and> channel (o02 ! i) = ''EHZ'') \<and>
              (station (st ! i) = ''PIRN'' \<longrightarrow>
                 station (o20 ! i) = ''PIR'' \<and> channel (o20 ! i) = ''EHN'' \<and>
                 station (o02 ! i) = ''PIR'' \<and> channel (o02 ! i) = ''EHN'') \<and>
              (station (st ! i) = ''PIRE'' \<longrightarrow>
                 station (o20 ! i) = ''PIR'' \<and> channel (o20 ! i) = ''EHE'' \<and>
                 station (o02 ! i) = ''PIR'' \<and> channel (o02 ! i) = ''EHE'') \<and>
              (station (st ! i) = ''PIR1'' \<or> station (st ! i) = ''PIR2'' \<longrightarrow>
                 station (o20 ! i) = station (st ! i) \<and> station (o02 ! i) = station (st ! i) \<and>
                 channel (o20 ! i) =
                   (if well_formed_channel (channel (st ! i)) then channel (st ! i) else ''EHZ'') \<and>
                 channel (o02 ! i) = ''EHZ''))"
proof -
  let ?S = "map station st"
  have codes: "station t \<in> {''PIR1'', ''PIR2'', ''PIRZ'', ''PIRN'', ''PIRE''}" if "t \<in> set st" for t
    using that assms by auto
  have props: "seed_code s \<and> \<not> prefix (take 3 s) ''IRIG'' \<and> s \<noteq> ''IRIG'' \<and> prefix ''PIR'' s"
    if "s \<in> {''PIR1'', ''PIR2'', ''PIRZ'', ''PIRN'', ''PIRE''}" for s
    using that by (auto simp: seed_code_def seed_char_def)
  have seed: "\<forall>t\<in>set st. seed_code (station t)"
    using codes props by blast
  have sep: "\<forall>t\<in>set st. not_irig t \<longrightarrow> \<not> prefix (take 3 (station t)) ''IRIG''"
    using codes props by blast
  have ni: "filter not_irig st = st" unfolding filter_id_conv using codes props by blast
  have "filter (prefix ''PIR'') ?S = ?S" unfolding filter_id_conv using assms props by blast
  moreover have "card {''PIR1'', ''PIR2'', ''PIRZ'', ''PIRN'', ''PIRE''} = 5" by simp
  then have "5 \<le> length ?S" using card_length [of ?S] assms by simp
  ultimately have M: "1 < length (filter (prefix ''PIR'') ?S)" by simp
  obtain o02 where o02: "fix_seedid_02 st net = Inr o02"
    and r02: "list_all2 (snapshot_step net ?S) st o02"
    using fix_seedid_02_snapshot [OF seed sep, of net] ni by auto
  obtain o20 where o20: "fix_seedid_20 st net = Inr o20"
    using fix_seedid_20_total [of st net] seed by (auto simp: seed_code_def)
  then have r20: "list_all2 (\<lambda>tr tr'. fix_trace_20 ?S net tr = Inr tr') st o20"
    using ni by (simp add: fix_seedid_20_Inr)
  have l20: "length o20 = length st" using r20 by (simp add: list_all2_lengthD)
  have l02: "length o02 = length st" using r02 by (simp add: list_all2_lengthD)
  have "(station (st ! i) = ''PIRZ'' \<longrightarrow>
                 station (o20 ! i) = ''PIR'' \<and> channel (o20 ! i) = ''EHZ'' \<and>
                 station (o02 ! i) = ''PIR'' \<and> channel (o02 ! i) = ''EHZ'') \<and>
              (station (st ! i) = ''PIRN'' \<longrightarrow>
                 station (o20 ! i) = ''PIR'' \<and> channel (o20 ! i) = ''EHN'' \<and>
                 station (o02 ! i) = ''PIR'' \<and> channel (o02 ! i) = ''EHN'') \<and>
              (station (st ! i) = ''PIRE'' \<longrightarrow>
                 station (o20 ! i) = ''PIR'' \<and> channel (o20 ! i) = ''EHE'' \<and>
                 station (o02 ! i) = ''PIR'' \<and> channel (o02 ! i) = ''EHE'') \<and>
              (station (st ! i) = ''PIR1'' \<or> station (st ! i) = ''PIR2'' \<longrightarrow>
                 station (o20 ! i) = station (st ! i) \<and> station (o02 ! i) = station (st ! i) \<and>
                 channel (o20 ! i) =
                   (if well_formed_channel (channel (st ! i)) then channel (st ! i) else ''EHZ'') \<and>
                 channel (o02 ! i) = ''EHZ'')" if i: "i < length st" for i
  proof -
    have a: "fix_trace_20 ?S net (st ! i) = Inr (o20 ! i)" using list_all2_nthD [OF r20 i] .
    have b: "snapshot_step net ?S (st ! i) (o02 ! i)" using list_all2_nthD [OF r02 i] .
    show ?thesis
      using pir_zne_20 [OF M, of "st ! i" _ net] pir_num_20 [of "st ! i" ?S net] a
        pir_zne_02 [OF b M] pir_num_02 [OF b]
      by auto
  qed
  then show ?thesis using o20 o02 l20 l02 by blast
qed

theorem pir_scenario_witness:
  "set (map station pir_batch) = {''PIR1'', ''PIR2'', ''PIRZ'', ''PIRN'', ''PIRE''} \<and>
   fix_seedid_20 pir_batch ''NR'' =
     Inr [fixed_trace ''PIR1'' ''EHN'', fixed_trace ''PIR2'' ''EHZ'', fixed_trace ''PIR'' ''EHZ'',
          fixed_trace ''PIR'' ''EHN'', fixed_trace ''PIR'' ''EHE''] \<and>
   fix_seedid_02 pir_batch ''NR'' =
     Inr [fixed_trace ''PIR1'' ''EHZ'', fixed_trace ''PIR2'' ''EHZ'', fixed_trace ''PIR'' ''EHZ'',
          fixed_trace ''PIR'' ''EHN'', fixed_trace ''PIR'' ''EHE'']"
proof -
  have h: "set (map station pir_batch) = {''PIR1'', ''PIR2'', ''PIRZ'', ''PIRN'', ''PIRE''}"
    by (auto simp: pir_batch_def raw_trace_def)
  from pir_scenario [OF h, of "''NR''"]
  have "\<exists>o20 o02. fix_seedid_20 pir_batch ''NR'' = Inr o20 \<and>
          fix_seedid_02 pir_batch ''NR'' = Inr o02" by blast
  then show ?thesis using h pir_batch_20 pir_batch_02 by simp
qed

text \<open>
  Claim C3 as stated fails on 02_mseed2sds.py: there PIR1, read with the channel code EHN
  (three characters ending in N), gets the channel EHZ.
\<close>

theorem pir_scenario_counterexample:
  "station (pir_batch ! 0) = ''PIR1'' \<and> channel (pir_batch ! 0) = ''EHN'' \<and>
   well_formed_channel ''EHN'' \<and>
   fix_seedid_02 pir_batch ''NR'' =
     Inr [fixed_trace ''PIR1'' ''EHZ'', fixed_trace ''PIR2'' ''EHZ'', fixed_trace ''PIR'' ''EHZ'',
          fixed_trace ''PIR'' ''EHN'', fixed_trace ''PIR'' ''EHE'']"
  using pir_batch_02 by (simp add: pir_batch_def raw_trace_def well_formed_channel_def)

text \<open>
  Claim C4, as amended. A bin of two traces of one id and one sampling rate, without
  masked samples, the second starting on a sampling point of the first, \<open>k\<close> whole
  samples after its start, inside it, and ending after it. The merged output is one trace
  from the start of the first to the end of the second. In 20_twominutemseed2suds.py
  (method 1) the samples of the overlap are those of the second trace, the one that starts
  later: the first trace keeps its first \<open>k\<close> samples only. In 02_mseed2sds.py (method
  0, \<open>fill_value=0\<close>) the test is all or nothing: the overlap is kept when the two
  traces have the same samples on the whole of it, and every sample of the overlap is zero
  otherwise.
\<close>

theorem overlap_resolution:
  assumes "trace_id a = trace_id b" and "sampling_rate a = sampling_rate b"
    and "0 < sampling_rate a"
    and "starttime b = starttime a + of_nat k / sampling_rate a"
    and "0 < k" and "k < length (data a)" and "length (data a) < k + length (data b)"
    and "None \<notin> set (data a)" and "None \<notin> set (data b)"
  shows "bucket_merge [a, b] = Inr [a\<lparr>data := take k (data a) @ data b\<rparr>] \<and>
         bucket_merge [b, a] = Inr [a\<lparr>data := take k (data a) @ data b\<rparr>] \<and>
         append_and_merge [a] [b] =
           Inr [a\<lparr>data :=
                  (if drop k (data a) = take (length (data a) - k) (data b)
                   then take k (data a) @ data b
                   else take k (data a) @ replicate (length (data a) - k) (Some 0) @
                        drop (length (data a) - k) (data b))\<rparr>] \<and>
         starttime (a\<lparr>data := take k (data a) @ data b\<rparr>) = starttime a \<and>
         endtime (a\<lparr>data := take k (data a) @ data b\<rparr>) = endtime b"
proof -
  have ne: "data a \<noteq> []" "data b \<noteq> []" using assms(5-7) by auto
  have lt: "starttime a < starttime b" using assms(3,4,5) by simp
  note m = merge_pair_overlap [OF assms(1-7)]
  note o1 = trace_add_overlap [OF assms(2-7), of 1 None]
  note o0 = trace_add_overlap [OF assms(2-7), of 0 "Some 0"]
  have sr0: "sampling_rate a \<noteq> 0" "sampling_rate b \<noteq> 0" using assms(2,3) by auto
  have len: "length (take k (data a) @ data b) = k + length (data b)"
    using assms(6) by simp
  have "endtime (a\<lparr>data := take k (data a) @ data b\<rparr>) =
          starttime a + (of_nat (k + length (data b)) - 1) / sampling_rate a"
    using sr0 ne by (simp add: endtime_def npts_def delta_def len del: length_append)
  also have "\<dots> = endtime b"
    using endtime_nonempty [OF ne(2) sr0(2)] assms(2,4)
    by (simp add: add_divide_distrib diff_divide_distrib)
  finally have e: "endtime (a\<lparr>data := take k (data a) @ data b\<rparr>) = endtime b" .
  show ?thesis using m o1 o0 e by simp
qed

theorem overlap_resolution_witness:
  "bucket_merge [overlap_a, overlap_b] =
     Inr [sample_trace 0 1 [1, 2, 3, 4, 5, 101, 102, 103, 104, 105, 106, 107, 108, 109, 110]] \<and>
   bucket_merge [overlap_b, overlap_a] =
     Inr [sample_trace 0 1 [1, 2, 3, 4, 5, 101, 102, 103, 104, 105, 106, 107, 108, 109, 110]] \<and>
   append_and_merge [overlap_a] [overlap_b] =
     Inr [sample_trace 0 1 [1, 2, 3, 4, 5, 0, 0, 0, 0, 0, 106, 107, 108, 109, 110]] \<and>
   append_and_merge [overlap_a] [overlap_c] =
     Inr [sample_trace 0 1 [1, 2, 3, 4, 5, 6, 7, 8, 9, 10, 11, 12]] \<and>
   endtime (sample_trace 0 1 [1, 2, 3, 4, 5, 101, 102, 103, 104, 105, 106, 107, 108, 109, 110]) =
     endtime overlap_b"
proof -
  have hb: "trace_id overlap_a = trace_id overlap_b"
    "sampling_rate overlap_a = sampling_rate overlap_b" "0 < sampling_rate overlap_a"
    "starttime overlap_b = starttime overlap_a + of_nat 5 / sampling_rate overlap_a"
    "0 < (5::nat)" "5 < length (data overlap_a)"
    "length (data overlap_a) < 5 + length (data overlap_b)"
    "None \<notin> set (data overlap_a)" "None \<notin> set (data overlap_b)"
    by (simp_all add: overlap_a_def overlap_b_def sample_trace_def trace_id_def)
  have hc: "trace_id overlap_a = trace_id overlap_c"
    "sampling_rate overlap_a = sampling_rate overlap_c" "0 < sampling_rate overlap_a"
    "starttime overlap_c = starttime overlap_a + of_nat 5 / sampling_rate overlap_a"
    "0 < (5::nat)" "5 < length (data overlap_a)"
    "length (data overlap_a) < 5 + length (data overlap_c)"
    "None \<notin> set (data overlap_a)" "None \<notin> set (data overlap_c)"
    by (simp_all add: overlap_a_def overlap_c_def sample_trace_def trace_id_def)
  have d1: "overlap_a\<lparr>data := take 5 (data overlap_a) @ data overlap_b\<rparr> =
     sample_trace 0 1 [1, 2, 3, 4, 5, 101, 102, 103, 104, 105, 106, 107, 108, 109, 110]"
    by (simp add: overlap_a_def overlap_b_def sample_trace_def)
  have d2: "overlap_a\<lparr>data :=
              (if drop 5 (data overlap_a) = take (length (data overlap_a) - 5) (data overlap_b)
               then take 5 (data overlap_a) @ data overlap_b
               else take 5 (data overlap_a) @ replicate (length (data overlap_a) - 5) (Some 0) @
                    drop (length (data overlap_a) - 5) (data overlap_b))\<rparr> =
     sample_trace 0 1 [1, 2, 3, 4, 5, 0, 0, 0, 0, 0, 106, 107, 108, 109, 110]"
    by (simp add: overlap_a_def overlap_b_def sample_trace_def numeral_eq_Suc)
  have d3: "overlap_a\<lparr>data :=
              (if drop 5 (data overlap_a) = take (length (data overlap_a) - 5) (data overlap_c)
               then take 5 (data overlap_a) @ data overlap_c
               else take 5 (data overlap_a) @ replicate (length (data overlap_a) - 5) (Some 0) @
                    drop (length (data overlap_a) - 5) (data overlap_c))\<rparr> =
     sample_trace 0 1 [1, 2, 3, 4, 5, 6, 7, 8, 9, 10, 11, 12]"
    by (simp add: overlap_a_def overlap_c_def sample_trace_def)
  from overlap_resolution [OF hb] overlap_resolution [OF hc] show ?thesis
    by (simp only: d1 d2 d3)
qed

text \<open>
  Claim C4 as stated fails on both scripts. With ten samples each at 1 Hz and the second
  trace starting 5 s after the first, the samples of the overlap in the output of
  20_twominutemseed2suds.py are the first five of the second trace (101 to 105), not the
  last five of the first (6 to 10); in the output of 02_mseed2sds.py they are zeros.
\<close>

theorem overlap_first_writer_counterexample:
  "drop 5 (data overlap_a) = map Some [6, 7, 8, 9, 10] \<and>
   bucket_merge [overlap_a, overlap_b] =
     Inr [sample_trace 0 1 [1, 2, 3, 4, 5, 101, 102, 103, 104, 105, 106, 107, 108, 109, 110]] \<and>
   append_and_merge [overlap_a] [overlap_b] =
     Inr [sample_trace 0 1 [1, 2, 3, 4, 5, 0, 0, 0, 0, 0, 106, 107, 108, 109, 110]]"
  by code_simp

text \<open>
  Claim C5, as amended. In the loop over the bins of 20_twominutemseed2suds.py, a write
  that fails is reported and the loop goes on: when every bin merges (at the first
  attempt or after the sampling rates are rounded) to a stream that is not empty and its
  directory can be made, the run is done, every bin whose write succeeds is written and
  the others are listed as errors. Three failures are not caught and end the run at their
  bin, with the bins before it handled as above and no bin after it merged or written: a
  merge that fails also after the rounding, a merged stream that is empty (\<open>st[0]\<close>
  raises IndexError), and a directory that cannot be made (\<open>mkdir\<close> of line 178).
\<close>

theorem merge_failure_aborts_write_failure_does_not:
  "(list_all (bin_ready env) bins \<longrightarrow>
      write_bins env bins lg =
        Done (lg\<lparr>wrote := wrote lg + length (filter (bin_written env) bins),
                  files := files lg @
                    map (\<lambda>b. (fst b, bin_stream b)) (filter (bin_written env) bins),
                  errors := errors lg @ map fst (filter (\<lambda>b. \<not> bin_written env b) bins)\<rparr>)) \<and>
   (list_all (bin_ready env) pre \<and> bucket_merge st = Inl e \<longrightarrow>
      write_bins env (pre @ (key, st) # post) lg =
        Aborted e (lg\<lparr>wrote := wrote lg + length (filter (bin_written env) pre),
                       files := files lg @
                         map (\<lambda>b. (fst b, bin_stream b)) (filter (bin_written env) pre),
                       errors := errors lg @ map fst (filter (\<lambda>b. \<not> bin_written env b) pre)\<rparr>)) \<and>
   (list_all (bin_ready env) pre \<and> bucket_merge st = Inr [] \<longrightarrow>
      write_bins env (pre @ (key, st) # post) lg =
        Aborted IndexError
          (lg\<lparr>wrote := wrote lg + length (filter (bin_written env) pre),
               files := files lg @
                 map (\<lambda>b. (fst b, bin_stream b)) (filter (bin_written env) pre),
               errors := errors lg @ map fst (filter (\<lambda>b. \<not> bin_written env b) pre)\<rparr>)) \<and>
   (list_all (bin_ready env) pre \<and> bucket_merge st = Inr (tr0 # others) \<and>
    \<not> mkdir_ok env key \<longrightarrow>
      write_bins env (pre @ (key, st) # post) lg =
        Aborted OSError
          (lg\<lparr>wrote := wrote lg + length (filter (bin_written env) pre),
               files := files lg @
                 map (\<lambda>b. (fst b, bin_stream b)) (filter (bin_written env) pre),
               errors := errors lg @ map fst (filter (\<lambda>b. \<not> bin_written env b) pre)\<rparr>))"
proof -
  let ?lg = "\<lambda>bs. lg\<lparr>wrote := wrote lg + length (filter (bin_written env) bs),
                  files := files lg @
                    map (\<lambda>b. (fst b, bin_stream b)) (filter (bin_written env) bs),
                  errors := errors lg @ map fst (filter (\<lambda>b. \<not> bin_written env b) bs)\<rparr>"
  have step: "write_bins env (pre @ (key, st) # post) lg = write_bins env ((key, st) # post) (?lg pre)"
    if "list_all (bin_ready env) pre" for pre post :: "(bin_key \<times> stream) list" and key st
  proof -
    have "write_bins env pre lg = Done (?lg pre)" using that by (rule write_bins_ready)
    then show ?thesis by (rule write_bins_append)
  qed
  have 1: "list_all (bin_ready env) bins \<longrightarrow> write_bins env bins lg = Done (?lg bins)"
    by (simp add: write_bins_ready)
  have 2: "list_all (bin_ready env) pre \<and> bucket_merge st = Inl e \<longrightarrow>
             write_bins env (pre @ (key, st) # post) lg = Aborted e (?lg pre)"
    by (simp add: step)
  have 3: "list_all (bin_ready env) pre \<and> bucket_merge st = Inr [] \<longrightarrow>
             write_bins env (pre @ (key, st) # post) lg = Aborted IndexError (?lg pre)"
    by (simp add: step)
  have 4: "list_all (bin_ready env) pre \<and> bucket_merge st = Inr (tr0 # others) \<and>
           \<not> mkdir_ok env key \<longrightarrow>
             write_bins env (pre @ (key, st) # post) lg = Aborted OSError (?lg pre)"
    by (simp add: step)
  from 1 2 3 4 show ?thesis by (intro conjI)
qed

theorem merge_failure_aborts_write_failure_does_not_witness:
  "write_bins env_bis_fails [(key_bis, [gap_a, gap_b]), (key_oll, [oll_trace])]
     \<lparr>wrote = 0, files = [], errors = []\<rparr> =
     Done \<lparr>wrote = 1, files = [(key_oll, [oll_trace])], errors = [key_bis]\<rparr> \<and>
   write_bins env_ok ([] @ (key_bis, [jitter_trace, steady_trace]) # [(key_oll, [oll_trace])])
     \<lparr>wrote = 0, files = [], errors = []\<rparr> =
     Aborted MergeException \<lparr>wrote = 0, files = [], errors = []\<rparr> \<and>
   write_bins env_ok ([] @ (key_bis, [empty_trace]) # [(key_oll, [oll_trace])])
     \<lparr>wrote = 0, files = [], errors = []\<rparr> =
     Aborted IndexError \<lparr>wrote = 0, files = [], errors = []\<rparr> \<and>
   write_bins env_no_dir ([(key_bis, [steady_trace])] @ (key_oll, [oll_trace]) # [])
     \<lparr>wrote = 0, files = [], errors = []\<rparr> =
     Aborted OSError \<lparr>wrote = 1, files = [(key_bis, [steady_trace])], errors = []\<rparr>"
proof -
  let ?bins = "[(key_bis, [gap_a, gap_b]), (key_oll, [oll_trace])]"
  let ?pre = "[(key_bis, [steady_trace])]"
  let ?lg = "\<lparr>wrote = 0, files = [], errors = []\<rparr>"
  have h1: "list_all (bin_ready env_bis_fails) ?bins" by code_simp
  have r1: "?lg\<lparr>wrote := wrote ?lg + length (filter (bin_written env_bis_fails) ?bins),
                files := files ?lg @
                  map (\<lambda>b. (fst b, bin_stream b)) (filter (bin_written env_bis_fails) ?bins),
                errors := errors ?lg @
                  map fst (filter (\<lambda>b. \<not> bin_written env_bis_fails b) ?bins)\<rparr> =
            \<lparr>wrote = 1, files = [(key_oll, [oll_trace])], errors = [key_bis]\<rparr>"
    by code_simp
  have h2: "list_all (bin_ready env_ok) [] \<and>
            bucket_merge [jitter_trace, steady_trace] = Inl MergeException"
    by code_simp
  have h3: "list_all (bin_ready env_ok) [] \<and> bucket_merge [empty_trace] = Inr []"
    by code_simp
  have h4: "list_all (bin_ready env_no_dir) ?pre \<and> bucket_merge [oll_trace] = Inr (oll_trace # []) \<and>
            \<not> mkdir_ok env_no_dir key_oll"
    by code_simp
  have r4: "?lg\<lparr>wrote := wrote ?lg + length (filter (bin_written env_no_dir) ?pre),
                files := files ?lg @
                  map (\<lambda>b. (fst b, bin_stream b)) (filter (bin_written env_no_dir) ?pre),
                errors := errors ?lg @
                  map fst (filter (\<lambda>b. \<not> bin_written env_no_dir b) ?pre)\<rparr> =
            \<lparr>wrote = 1, files = [(key_bis, [steady_trace])], errors = []\<rparr>"
    by code_simp
  from merge_failure_aborts_write_failure_does_not
         [of env_bis_fails ?bins ?lg "[]" "[jitter_trace, steady_trace]" MergeException]
       h1 r1
  have 1: "write_bins env_bis_fails ?bins ?lg =
             Done \<lparr>wrote = 1, files = [(key_oll, [oll_trace])], errors = [key_bis]\<rparr>"
    by simp
  from merge_failure_aborts_write_failure_does_not
         [of env_ok "[]" ?lg "[]" "[jitter_trace, steady_trace]" MergeException key_bis
            "[(key_oll, [oll_trace])]"]
       h2
  have 2: "write_bins env_ok ([] @ (key_bis, [jitter_trace, steady_trace]) #
             [(key_oll, [oll_trace])]) ?lg = Aborted MergeException ?lg"
    by simp
  from merge_failure_aborts_write_failure_does_not
         [of env_ok "[]" ?lg "[]" "[empty_trace]" MergeException key_bis
            "[(key_oll, [oll_trace])]"]
       h3
  have 3: "write_bins env_ok ([] @ (key_bis, [empty_trace]) # [(key_oll, [oll_trace])]) ?lg =
             Aborted IndexError ?lg"
    by simp
  from merge_failure_aborts_write_failure_does_not
         [of env_no_dir "[]" ?lg ?pre "[oll_trace]" MergeException key_oll "[]" oll_trace "[]"]
       h4 r4
  have 4: "write_bins env_no_dir (?pre @ (key_oll, [oll_trace]) # []) ?lg =
             Aborted OSError \<lparr>wrote = 1, files = [(key_bis, [steady_trace])], errors = []\<rparr>"
    by simp
  from 1 2 3 4 show ?thesis by (intro conjI)
qed

text \<open>
  Claim C5 as stated fails. The bin of BIS holds a trace at 99.9997 Hz and one at 100 Hz:
  the first merge raises, the rounding leaves 99.9997 Hz as it is, the second merge raises
  and nothing catches it. The run ends there; the bin of OLL, which merges and could be
  written, is not written.
\<close>

theorem merge_failure_aborts_run_counterexample:
  "bucket_merge [oll_trace] = Inr [oll_trace] \<and>
   bucket_merge [jitter_trace, steady_trace] = Inl MergeException \<and>
   process_bins env_ok [(key_oll, [oll_trace]), (key_bis, [jitter_trace, steady_trace])] =
     Aborted MergeException \<lparr>wrote = 0, files = [], errors = []\<rparr>"
  by code_simp

text \<open>
  Claim C6 fails on the code. The docstring of \<open>round_sampling_rates\<close> names 99.9997 as
  a sampling rate to round, and the claim has it reconciled to 100.0; the tolerance of the
  function is 1e-6 and 99.9997 is 3e-4 from 100, so the function leaves it as it is.
  (Python's \<open>round\<close> of it is 100: the retry of 02_mseed2sds.py, which rounds every rate
  without a tolerance, would set 100.)
\<close>

theorem jitter_rate_not_snapped:
  "sampling_rate jitter_trace = 999997 / 10000 \<and>
   round_sampling_rates [jitter_trace] = [jitter_trace] \<and>
   py_round (sampling_rate jitter_trace) = 100"
  by code_simp

text \<open>
  Claim C7. Both normalizers drop every trace whose station code is IRIG: whenever either
  returns a stream, no trace of it has the station code IRIG, and its traces are the
  traces of the input that are not IRIG traces, in their order, with their samples and
  start times. Dropping is not an error: an IRIG trace never makes a normalizer raise,
  and both return a stream whenever every other trace has a station code that is not
  empty.
\<close>

theorem irig_dropped:
  "(\<forall>out. fix_seedid_20 st net = Inr out \<longrightarrow>
      (\<forall>tr\<in>set out. station tr \<noteq> ''IRIG'') \<and>
      map data out = map data (filter (\<lambda>tr. station tr \<noteq> ''IRIG'') st) \<and>
      map starttime out = map starttime (filter (\<lambda>tr. station tr \<noteq> ''IRIG'') st)) \<and>
   (\<forall>out. fix_seedid_02 st net = Inr out \<longrightarrow>
      (\<forall>tr\<in>set out. station tr \<noteq> ''IRIG'') \<and>
      map data out = map data (filter (\<lambda>tr. station tr \<noteq> ''IRIG'') st) \<and>
      map starttime out = map starttime (filter (\<lambda>tr. station tr \<noteq> ''IRIG'') st)) \<and>
   ((\<forall>tr\<in>set st. station tr \<noteq> ''IRIG'' \<longrightarrow> station tr \<noteq> []) \<longrightarrow>
      (\<exists>out. fix_seedid_20 st net = Inr out) \<and> (\<exists>out. fix_seedid_02 st net = Inr out))"
proof (intro conjI allI impI)
  fix out assume "fix_seedid_20 st net = Inr out"
  from fix_seedid_20_no_irig [OF this]
  show "\<forall>tr\<in>set out. station tr \<noteq> ''IRIG''"
    and "map data out = map data (filter (\<lambda>tr. station tr \<noteq> ''IRIG'') st)"
    and "map starttime out = map starttime (filter (\<lambda>tr. station tr \<noteq> ''IRIG'') st)"
    by simp_all
next
  fix out assume "fix_seedid_02 st net = Inr out"
  then have "fix_loop_02 net [] st = Inr out" by (simp add: fix_seedid_02_def)
  from fix_loop_02_Inr [OF this]
  show "\<forall>tr\<in>set out. station tr \<noteq> ''IRIG''"
    and "map data out = map data (filter (\<lambda>tr. station tr \<noteq> ''IRIG'') st)"
    and "map starttime out = map starttime (filter (\<lambda>tr. station tr \<noteq> ''IRIG'') st)"
    by simp_all
next
  assume a: "\<forall>tr\<in>set st. station tr \<noteq> ''IRIG'' \<longrightarrow> station tr \<noteq> []"
  show "\<exists>out. fix_seedid_20 st net = Inr out" using fix_seedid_20_total [OF a] .
  show "\<exists>out. fix_seedid_02 st net = Inr out"
    using fix_loop_02_total [OF a] by (simp add: fix_seedid_02_def)
qed

theorem irig_dropped_witness:
  "fix_seedid_20 irig_batch ''NR'' = Inr irig_batch_fixed \<and>
   fix_seedid_02 irig_batch ''NR'' = Inr irig_batch_fixed \<and>
   list_all (\<lambda>tr. station tr \<noteq> ''IRIG'') irig_batch_fixed \<and>
   map data irig_batch_fixed = map data (filter (\<lambda>tr. station tr \<noteq> ''IRIG'') irig_batch)"
proof -
  have h: "\<forall>tr\<in>set irig_batch. station tr \<noteq> ''IRIG'' \<longrightarrow> station tr \<noteq> []"
    by (simp add: irig_batch_def)
  from irig_dropped [of irig_batch "''NR''"] h
  have "\<exists>out. fix_seedid_20 irig_batch ''NR'' = Inr out" by blast
  from irig_dropped [of irig_batch "''NR''"] irig_batch_20
  have "(\<forall>tr\<in>set irig_batch_fixed. station tr \<noteq> ''IRIG'') \<and>
        map data irig_batch_fixed = map data (filter (\<lambda>tr. station tr \<noteq> ''IRIG'') irig_batch)"
    by blast
  then show ?thesis using irig_batch_20 irig_batch_02 by (simp add: list_all_iff)
qed

text \<open>
  Claim C8, as amended. The normalizer of 20_twominutemseed2suds.py reads the sibling
  station codes from a snapshot taken before its loop, so it does not depend on the order
  of the batch: for two streams with the same traces in any order, every trace gets the
  same result (the same network, station and channel, or the same error), and the two
  output streams hold the same traces.
\<close>

theorem snapshot_normalizer_order_independent:
  assumes "mset st' = mset st"
  shows "(\<forall>tr. fix_trace_20 (map station st') net tr = fix_trace_20 (map station st) net tr) \<and>
         rel_sum (=) (\<lambda>out' out. mset out' = mset out)
           (fix_seedid_20 st' net) (fix_seedid_20 st net)"
proof -
  have eq: "fix_trace_20 (map station st') net tr = fix_trace_20 (map station st) net tr" for tr
    by (rule fix_trace_20_perm [OF assms])
  have s: "set st' = set st" using assms by (rule mset_eq_setD)
  have m: "mset (map f (filter not_irig st')) = mset (map f (filter not_irig st))" for f :: "trace \<Rightarrow> trace"
  proof -
    have "mset (filter not_irig st') = mset (filter not_irig st)"
      using assms by simp
    then have "image_mset f (mset (filter not_irig st')) = image_mset f (mset (filter not_irig st))"
      by (rule arg_cong)
    then show ?thesis by (simp only: mset_map)
  qed
  let ?A = "\<forall>tr\<in>set st. not_irig tr \<longrightarrow> \<not> isl (fix_trace_20 (map station st) net tr)"
  let ?g = "\<lambda>tr. projr (fix_trace_20 (map station st) net tr)"
  have c': "fix_seedid_20 st' net =
     (if ?A then Inr (map ?g (filter not_irig st')) else Inl IndexError)"
    using fix_seedid_20_cases [of st' net] by (simp only: eq s)
  have c: "fix_seedid_20 st net =
     (if ?A then Inr (map ?g (filter not_irig st)) else Inl IndexError)"
    by (rule fix_seedid_20_cases)
  have "rel_sum (=) (\<lambda>out' out. mset out' = mset out)
           (fix_seedid_20 st' net) (fix_seedid_20 st net)"
  proof (cases ?A)
    case True
    then show ?thesis using m [of ?g] by (simp add: c c')
  next
    case False
    then show ?thesis using assms by (auto simp add: c c')
  qed
  then show ?thesis using eq by blast
qed

theorem snapshot_normalizer_order_independent_witness:
  "mset (rev pir_batch) = mset pir_batch \<and>
   fix_seedid_20 pir_batch ''NR'' =
     Inr [fixed_trace ''PIR1'' ''EHN'', fixed_trace ''PIR2'' ''EHZ'', fixed_trace ''PIR'' ''EHZ'',
          fixed_trace ''PIR'' ''EHN'', fixed_trace ''PIR'' ''EHE''] \<and>
   fix_seedid_20 (rev pir_batch) ''NR'' =
     Inr [fixed_trace ''PIR'' ''EHE'', fixed_trace ''PIR'' ''EHN'', fixed_trace ''PIR'' ''EHZ'',
          fixed_trace ''PIR2'' ''EHZ'', fixed_trace ''PIR1'' ''EHN'']"
proof -
  have h: "mset (rev pir_batch) = mset pir_batch" by simp
  from snapshot_normalizer_order_independent [OF h, of "''NR''"]
  have "rel_sum (=) (\<lambda>out' out. mset out' = mset out)
          (fix_seedid_20 (rev pir_batch) ''NR'') (fix_seedid_20 pir_batch ''NR'')" by blast
  then show ?thesis using h pir_batch_20 rev_pir_batch_20 by simp
qed

text \<open>
  Claim C8 as stated fails on 02_mseed2sds.py, whose \<open>st.select\<close> counts the traces of the
  live stream: an IRIG trace that is still in the stream counts for the root IRI, one that
  was removed does not. The same two traces give station IRIZ in one order and station
  IRI in the other.
\<close>

theorem legacy_normalizer_order_counterexample:
  "mset iriz_first = mset irig_first \<and>
   fix_seedid_02 irig_first ''NR'' = Inr [fixed_trace ''IRIZ'' ''EHZ''] \<and>
   fix_seedid_02 iriz_first ''NR'' = Inr [fixed_trace ''IRI'' ''EHZ'']"
  using irig_first_02 iriz_first_02 by (simp add: irig_first_def iriz_first_def)

text \<open>
  Claim C9 fails on the code. For \<open>stuck_trace\<close> the sample nearest to midnight is
  0.25 s before midnight. The first iteration leaves a working trace that starts at that
  sample, on the same day; from then on \<open>trim\<close> returns the working trace unchanged
  (its first sample is the one nearest to midnight), the start time does not advance and
  the loop does not end.
\<close>

theorem split_does_not_terminate: "split_trace_at_midnights stuck_trace = None"
proof -
  let ?left = "sample_trace (86400 - 5 / 4) 1 [1, 2]"
  let ?right = "sample_trace (86400 - 1 / 4) 1 [2, 3, 4]"
  have 1: "\<not> endtime stuck_trace \<le> day_start (starttime stuck_trace) + 86400"
    by code_simp
  have 2: "trim stuck_trace (starttime stuck_trace)
             (day_start (starttime stuck_trace) + 86400) = Inr ?left"
    by code_simp
  have 3: "trim stuck_trace (day_start (starttime stuck_trace) + 86400)
             (endtime stuck_trace) = Inr ?right"
    by code_simp
  have 4: "\<not> endtime ?right \<le> day_start (starttime ?right) + 86400"
    by code_simp
  have 5: "trim ?right (starttime ?right) (day_start (starttime ?right) + 86400) =
             Inr (sample_trace (86400 - 1 / 4) 1 [2])"
    by code_simp
  have 6: "trim ?right (day_start (starttime ?right) + 86400) (endtime ?right) = Inr ?right"
    by code_simp
  show ?thesis
    unfolding split_trace_at_midnights_def
    by (simp only: split_loop_step [OF 1 2 3] split_loop_stuck [OF 4 5 6])
qed

text \<open>
  Claim C10, as amended. Whenever both normalizers return a stream, they keep the same
  traces: the traces that are not IRIG traces, in their order, with their samples and
  start times, under the same network code; and both return a stream when no kept trace
  has an empty station code. When every station code is a SEED code (upper-case letters
  and digits, not empty), they give a kept trace the same station code and the same
  channel code if, and only if, two conditions hold. First, the siblings: its station
  code does not end in a letter of the renaming rules (Z, N or E, or L or H at the end of
  four characters), or the test for several station codes on its three-character root
  has the same result on the whole input, where 20_twominutemseed2suds.py counts, as on
  the input without the IRIG traces that come before the trace, where 02_mseed2sds.py
  counts. Second, the channel: the Z/N/E rule applies to the trace; or it comes with a
  channel code that is not three characters ending in Z, N or E; or the low-gain rule
  applies to it (a station code of four characters ending in L, several station codes on
  its root) and its channel code ends in Z; or the low-gain rule does not apply and its
  channel code is EHZ.
\<close>

theorem normalizers_agree:
  "(\<forall>o02 o20. fix_seedid_02 st net = Inr o02 \<and> fix_seedid_20 st net = Inr o20 \<longrightarrow>
      map data o02 = map data (filter (\<lambda>t. station t \<noteq> ''IRIG'') st) \<and>
      map data o20 = map data (filter (\<lambda>t. station t \<noteq> ''IRIG'') st) \<and>
      map starttime o02 = map starttime (filter (\<lambda>t. station t \<noteq> ''IRIG'') st) \<and>
      map starttime o20 = map starttime (filter (\<lambda>t. station t \<noteq> ''IRIG'') st) \<and>
      map network o20 = map network o02) \<and>
   ((\<forall>t\<in>set st. station t \<noteq> ''IRIG'' \<longrightarrow> station t \<noteq> []) \<longrightarrow>
      (\<exists>o02 o20. fix_seedid_02 st net = Inr o02 \<and> fix_seedid_20 st net = Inr o20)) \<and>
   ((\<forall>t\<in>set st. seed_code (station t)) \<longrightarrow>
      (\<exists>o02 o20. fix_seedid_02 st net = Inr o02 \<and> fix_seedid_20 st net = Inr o20 \<and>
         map fst (kept_with_live [] st) = filter (\<lambda>t. station t \<noteq> ''IRIG'') st \<and>
         length o02 = length (kept_with_live [] st) \<and>
         length o20 = length (kept_with_live [] st) \<and>
         (\<forall>i<length (kept_with_live [] st).
            (station (o20 ! i) = station (o02 ! i) \<and> channel (o20 ! i) = channel (o02 ! i)) =
              (same_siblings (map station st) (snd (kept_with_live [] st ! i))
                 (fst (kept_with_live [] st ! i)) \<and>
               same_channel (map station st) (fst (kept_with_live [] st ! i))))))"
proof (intro conjI allI impI)
  fix o02 o20
  assume a: "fix_seedid_02 st net = Inr o02 \<and> fix_seedid_20 st net = Inr o20"
  then have l: "fix_loop_02 net [] st = Inr o02" by (simp add: fix_seedid_02_def)
  note k02 = fix_loop_02_Inr [OF l]
  note k20 = fix_seedid_20_no_irig [of st net o20]
  show "map data o02 = map data (filter (\<lambda>t. station t \<noteq> ''IRIG'') st)"
    and "map starttime o02 = map starttime (filter (\<lambda>t. station t \<noteq> ''IRIG'') st)"
    using k02 by simp_all
  show d20: "map data o20 = map data (filter (\<lambda>t. station t \<noteq> ''IRIG'') st)"
    and "map starttime o20 = map starttime (filter (\<lambda>t. station t \<noteq> ''IRIG'') st)"
    using k20 a by simp_all
  have "map data o02 = map data o20" using k02 d20 by simp
  then have "length o20 = length o02" using map_eq_imp_length_eq by metis
  then show "map network o20 = map network o02"
    using same_network [of o20 net o02] fix_seedid_20_network [of st net o20]
      fix_loop_02_network [OF l] a by simp
next
  assume a: "\<forall>t\<in>set st. station t \<noteq> ''IRIG'' \<longrightarrow> station t \<noteq> []"
  show "\<exists>o02 o20. fix_seedid_02 st net = Inr o02 \<and> fix_seedid_20 st net = Inr o20"
    using fix_seedid_20_total [OF a, of net] fix_loop_02_total [OF a, of net "[]"]
    by (auto simp: fix_seedid_02_def)
next
  let ?kept = "filter (\<lambda>t. station t \<noteq> ''IRIG'') st"
  let ?kl = "kept_with_live [] st"
  let ?S = "map station st"
  assume seed: "\<forall>t\<in>set st. seed_code (station t)"
  obtain o02 where o02: "fix_seedid_02 st net = Inr o02"
    and r02: "list_all2 (\<lambda>p tr'. snapshot_step net (snd p) (fst p) tr') ?kl o02"
    using fix_seedid_02_live [OF seed] by blast
  obtain o20 where o20: "fix_seedid_20 st net = Inr o20"
    using fix_seedid_20_total [of st net] seed by (auto simp: seed_code_def)
  then have r20: "list_all2 (\<lambda>tr tr'. fix_trace_20 ?S net tr = Inr tr') ?kept o20"
    by (simp add: fix_seedid_20_Inr)
  have e: "list_all2 (\<lambda>p t. fst p = t \<and>
                filter (\<lambda>x. x \<noteq> ''IRIG'') (snd p) = filter (\<lambda>x. x \<noteq> ''IRIG'') ?S) ?kl ?kept"
    using kept_with_live_entries [of "[]" st] by simp
  have lk: "length ?kl = length ?kept" using e by (rule list_all2_lengthD)
  have l02: "length o02 = length ?kl" using r02 by (simp add: list_all2_lengthD)
  have l20: "length o20 = length ?kl" using r20 lk by (simp add: list_all2_lengthD)
  have f: "fst (?kl ! i) = ?kept ! i"
    and g: "filter (\<lambda>x. x \<noteq> ''IRIG'') (snd (?kl ! i)) = filter (\<lambda>x. x \<noteq> ''IRIG'') ?S"
    if "i < length ?kl" for i
    using list_all2_nthD [OF e that] by simp_all
  have mf: "map fst ?kl = ?kept"
    using lk f by (auto intro!: nth_equalityI)
  have pt: "(station (o20 ! i) = station (o02 ! i) \<and> channel (o20 ! i) = channel (o02 ! i)) =
              (same_siblings ?S (snd (?kl ! i)) (fst (?kl ! i)) \<and> same_channel ?S (fst (?kl ! i)))"
    if i: "i < length ?kl" for i
  proof -
    have i': "i < length ?kept" using i lk by simp
    then have "?kept ! i \<in> set ?kept" by (rule nth_mem)
    then have ne: "station (fst (?kl ! i)) \<noteq> []"
      using seed f [OF i] by (auto simp: seed_code_def)
    have s: "snapshot_step net (snd (?kl ! i)) (fst (?kl ! i)) (o02 ! i)"
      using list_all2_nthD [OF r02 i] .
    have a: "fix_trace_20 ?S net (fst (?kl ! i)) = Inr (o20 ! i)"
      using list_all2_nthD [OF r20 i'] f [OF i] by simp
    from snapshot_step_compare [OF s ne g [OF i] a] show ?thesis by simp
  qed
  show "\<exists>o02 o20. fix_seedid_02 st net = Inr o02 \<and> fix_seedid_20 st net = Inr o20 \<and>
         map fst ?kl = ?kept \<and> length o02 = length ?kl \<and> length o20 = length ?kl \<and>
         (\<forall>i<length ?kl.
            (station (o20 ! i) = station (o02 ! i) \<and> channel (o20 ! i) = channel (o02 ! i)) =
              (same_siblings ?S (snd (?kl ! i)) (fst (?kl ! i)) \<and>
               same_channel ?S (fst (?kl ! i))))"
    using o02 o20 mf l02 l20 pt by blast
qed

theorem normalizers_agree_witness:
  "list_all (\<lambda>t. seed_code (station t)) mixed_batch \<and>
   fix_seedid_02 mixed_batch ''NR'' =
     Inr [fixed_trace ''IRI'' ''EHZ'', fixed_trace ''IRI'' ''EHN'', fixed_trace ''OLL'' ''EHZ'',
          fixed_trace ''OLL'' ''EHN'', fixed_trace ''REC1'' ''EHZ'', fixed_trace ''REC'' ''ELZ'',
          fixed_trace ''REC'' ''EHZ'', fixed_trace ''ABC'' ''EHZ''] \<and>
   fix_seedid_20 mixed_batch ''NR'' =
     Inr [fixed_trace ''IRI'' ''EHZ'', fixed_trace ''IRI'' ''EHN'', fixed_trace ''OLL'' ''EHZ'',
          fixed_trace ''OLL'' ''EHN'', fixed_trace ''REC1'' ''EHZ'', fixed_trace ''REC'' ''ELZ'',
          fixed_trace ''REC'' ''EHZ'', fixed_trace ''ABC'' ''EHN''] \<and>
   map (\<lambda>p. same_siblings (map station mixed_batch) (snd p) (fst p) \<and>
              same_channel (map station mixed_batch) (fst p))
     (kept_with_live [] mixed_batch) =
     [True, True, True, True, True, True, True, False]"
proof -
  have h0: "\<forall>t\<in>set mixed_batch. station t \<noteq> ''IRIG'' \<longrightarrow> station t \<noteq> []"
    by (simp add: mixed_batch_def raw_trace_def)
  have h1: "\<forall>t\<in>set mixed_batch. seed_code (station t)"
    by (simp add: mixed_batch_def raw_trace_def seed_code_def seed_char_def)
  from normalizers_agree [of mixed_batch "''NR''"] h0 h1
  have "\<exists>o02 o20. fix_seedid_02 mixed_batch ''NR'' = Inr o02 \<and>
          fix_seedid_20 mixed_batch ''NR'' = Inr o20 \<and>
          length o02 = length (kept_with_live [] mixed_batch) \<and>
          length o20 = length (kept_with_live [] mixed_batch)"
    by blast
  then show ?thesis
    using h1 mixed_batch_02 mixed_batch_20 mixed_batch_same
    by (simp add: list_all_iff)
qed

text \<open>
  Claim C10 as stated fails. For a trace read with the channel code EHN whose station code
  does not end in Z, N or E, 02_mseed2sds.py sets the channel EHZ and
  20_twominutemseed2suds.py keeps EHN. For IRIG followed by IRIZ, the first counts one
  station on the root IRI and the second two. For the station codes pirZ and PIRN, the
  first compares without case and the second with it. For an empty station code the first
  raises IndexError and the second returns the trace with the channel EHZ.
\<close>

theorem normalizers_differ_counterexample:
  "fix_seedid_02 abc_batch ''NR'' = Inr [fixed_trace ''ABC'' ''EHZ''] \<and>
   fix_seedid_20 abc_batch ''NR'' = Inr [fixed_trace ''ABC'' ''EHN''] \<and>
   fix_seedid_02 irig_first ''NR'' = Inr [fixed_trace ''IRIZ'' ''EHZ''] \<and>
   fix_seedid_20 irig_first ''NR'' = Inr [fixed_trace ''IRI'' ''EHZ''] \<and>
   fix_seedid_02 lower_batch ''NR'' = Inr [fixed_trace ''pir'' ''EHZ'', fixed_trace ''PIR'' ''EHN''] \<and>
   fix_seedid_20 lower_batch ''NR'' = Inr [fixed_trace ''pirZ'' ''EHZ'', fixed_trace ''PIRN'' ''EHZ''] \<and>
   fix_seedid_02 nameless_batch ''NR'' = Inl IndexError \<and>
   fix_seedid_20 nameless_batch ''NR'' = Inr [fixed_trace [] ''EHZ'']"
  using abc_batch_02 abc_batch_20 irig_first_02 irig_first_20 lower_batch_02 lower_batch_20
    nameless_batch_02 nameless_batch_20
  by simp

end
